theory Spec2Isabelle
  imports Complex_Main "HOL-Library.Word"
begin

section \<open>JavaScript values\<close>

text \<open>
  The event payloads of \<^verbatim>\<open>app/index.js\<close> are untyped JavaScript values. A string is the
  list of its UTF-16 code units, as in the language; \<open>js\<close> turns an ASCII literal into
  such a string. A number is a float in the source; the model keeps the special values
  apart and lets a finite number be any rational, which covers every finite double, and
  the source only compares numbers, which is exact on doubles.
\<close>

type_synonym codeunit = "16 word"

type_synonym jsstring = "codeunit list"

definition js :: "string \<Rightarrow> jsstring" where
  "js s = map of_char s"

datatype jsnum = NaN | Fin rat | PosInf | NegInf

type_synonym byte = "8 word"

datatype jsval =
    JUndefined
  | JNull
  | JBool bool
  | JNum jsnum
  | JStr jsstring
  | JArr "jsval list"
  | JObj "(jsstring \<times> jsval) list"
  | JBuffer "byte list"
  | JUint8Array "byte list"

text \<open>\<^verbatim>\<open>!v\<close> is the negation of \<open>truthy v\<close>.\<close>

fun truthy :: "jsval \<Rightarrow> bool" where
  "truthy JUndefined = False"
| "truthy JNull = False"
| "truthy (JBool b) = b"
| "truthy (JNum NaN) = False"
| "truthy (JNum (Fin q)) = (q \<noteq> 0)"
| "truthy (JNum PosInf) = True"
| "truthy (JNum NegInf) = True"
| "truthy (JStr s) = (s \<noteq> [])"
| "truthy (JArr xs) = True"
| "truthy (JObj fs) = True"
| "truthy (JBuffer bs) = True"
| "truthy (JUint8Array bs) = True"

text \<open>\<^verbatim>\<open>typeof v === "object"\<close>; \<^verbatim>\<open>typeof null\<close> is \<^verbatim>\<open>"object"\<close> too.\<close>

fun isObject :: "jsval \<Rightarrow> bool" where
  "isObject JNull = True"
| "isObject (JArr xs) = True"
| "isObject (JObj fs) = True"
| "isObject (JBuffer bs) = True"
| "isObject (JUint8Array bs) = True"
| "isObject v = False"

text \<open>
  \<^verbatim>\<open>data[key]\<close> for the keys the handlers read (\<^verbatim>\<open>to\<close>, \<^verbatim>\<open>language\<close>,
  \<^verbatim>\<open>targetLanguage\<close>, \<^verbatim>\<open>encoding\<close>, \<^verbatim>\<open>sampleRateHertz\<close>, \<^verbatim>\<open>audio\<close>,
  \<^verbatim>\<open>sequenceId\<close>): none of them is a property of an array or of a buffer, so only a plain
  object can answer with anything but \<^verbatim>\<open>undefined\<close>.
\<close>

fun getProp :: "jsval \<Rightarrow> jsstring \<Rightarrow> jsval" where
  "getProp (JObj fs) k = (case map_of fs k of Some v \<Rightarrow> v | None \<Rightarrow> JUndefined)"
| "getProp v k = JUndefined"

section \<open>Configuration and run-time library\<close>

text \<open>
  The constants \<^verbatim>\<open>MAX_AUDIO_BYTES\<close>, \<^verbatim>\<open>RATE_LIMIT_WINDOW_MS\<close>,
  \<^verbatim>\<open>RATE_LIMIT_MAX_REQUESTS\<close> and \<^verbatim>\<open>MAX_STT_PENDING_REQUESTS\<close> and \<^verbatim>\<open>projectId\<close> are
  read from the process environment when the module loads, so they are parameters here.
  Four library conversions are parameters as well, because their results depend on float
  formatting, on the decoder of the Node version and on the Unicode tables:
  \<^verbatim>\<open>Number(v)\<close> for a string or an object \<open>v\<close> (a \<^verbatim>\<open>TypeError\<close> message on the left), the
  length of \<^verbatim>\<open>Buffer.from(s, "base64")\<close>, and \<^verbatim>\<open>toUpperCase\<close> and \<^verbatim>\<open>toLowerCase\<close> on a
  string that is not all ASCII. Every theorem holds for whatever these four are.
\<close>

record env =
  MAX_AUDIO_BYTES :: int
  RATE_LIMIT_WINDOW_MS :: int
  RATE_LIMIT_MAX_REQUESTS :: int
  MAX_STT_PENDING_REQUESTS :: int
  projectId :: "jsstring option"
  toNumberOther :: "jsval \<Rightarrow> string + jsnum"
  base64ByteLength :: "jsstring \<Rightarrow> nat"
  upperCaseOther :: "jsstring \<Rightarrow> jsstring"
  lowerCaseOther :: "jsstring \<Rightarrow> jsstring"

section \<open>String operations\<close>

text \<open>
  White space for \<^verbatim>\<open>String.prototype.trim\<close> and for \<^verbatim>\<open>\s\<close> in a regular expression: the
  ECMAScript white space and line terminator code points (tab, line feed, vertical tab,
  form feed, carriage return, space, no-break space, the other space separators of
  Unicode, line and paragraph separator, and the byte order mark U+FEFF).
\<close>

definition isWhiteSpace :: "codeunit \<Rightarrow> bool" where
  "isWhiteSpace c =
     (let n = unat c in
        (0x0009 \<le> n \<and> n \<le> 0x000D) \<or> n = 0x0020 \<or> n = 0x00A0 \<or> n = 0x1680
        \<or> (0x2000 \<le> n \<and> n \<le> 0x200A) \<or> n = 0x2028 \<or> n = 0x2029 \<or> n = 0x202F
        \<or> n = 0x205F \<or> n = 0x3000 \<or> n = 0xFEFF)"

definition trim :: "jsstring \<Rightarrow> jsstring" where
  "trim s = rev (dropWhile isWhiteSpace (rev (dropWhile isWhiteSpace s)))"

definition lowerLetters :: jsstring where
  "lowerLetters = js ''abcdefghijklmnopqrstuvwxyz''"

definition upperLetters :: jsstring where
  "upperLetters = js ''ABCDEFGHIJKLMNOPQRSTUVWXYZ''"

definition digits :: jsstring where
  "digits = js ''0123456789''"

definition isAscii :: "codeunit \<Rightarrow> bool" where
  "isAscii c = (unat c < 128)"

definition isUpper :: "codeunit \<Rightarrow> bool" where
  "isUpper c = (0x41 \<le> unat c \<and> unat c \<le> 0x5A)"

definition isLower :: "codeunit \<Rightarrow> bool" where
  "isLower c = (0x61 \<le> unat c \<and> unat c \<le> 0x7A)"

definition isDigit :: "codeunit \<Rightarrow> bool" where
  "isDigit c = (0x30 \<le> unat c \<and> unat c \<le> 0x39)"

text \<open>
  On a string of ASCII code units the case mappings change the 26 letters, one unit for
  one unit. On any other string they are the run-time's.
\<close>

definition toLowerChar :: "codeunit \<Rightarrow> codeunit" where
  "toLowerChar c = (if isUpper c then c + 0x20 else c)"

definition toUpperChar :: "codeunit \<Rightarrow> codeunit" where
  "toUpperChar c = (if isLower c then c - 0x20 else c)"

definition toLowerCase :: "env \<Rightarrow> jsstring \<Rightarrow> jsstring" where
  "toLowerCase env s = (if list_all isAscii s then map toLowerChar s else lowerCaseOther env s)"

definition toUpperCase :: "env \<Rightarrow> jsstring \<Rightarrow> jsstring" where
  "toUpperCase env s = (if list_all isAscii s then map toUpperChar s else upperCaseOther env s)"

definition startsWith :: "jsstring \<Rightarrow> jsstring \<Rightarrow> bool" where
  "startsWith s p = (take (length p) s = p)"

text \<open>
  A letter for \<^verbatim>\<open>[a-z]\<close> and \<^verbatim>\<open>[A-Za-z]\<close> under the \<^verbatim>\<open>i\<close> flag: the ASCII letters and no
  other code unit (the case folding of a regular expression without the \<^verbatim>\<open>u\<close> flag never
  maps a unit outside ASCII into ASCII).
\<close>

definition isLetter :: "codeunit \<Rightarrow> bool" where
  "isLetter c = (isLower c \<or> isUpper c)"

text \<open>\<^verbatim>\<open>s.split(sep)\<close> for a one-unit separator: never the empty array.\<close>

fun split :: "codeunit \<Rightarrow> jsstring \<Rightarrow> jsstring list" where
  "split sep [] = [[]]"
| "split sep (c # cs) =
     (if c = sep then [] # split sep cs
      else (case split sep cs of [] \<Rightarrow> [[c]] | p # ps \<Rightarrow> (c # p) # ps))"

text \<open>\<^verbatim>\<open>parts.join(sep)\<close>.\<close>

fun join :: "jsstring \<Rightarrow> jsstring list \<Rightarrow> jsstring" where
  "join sep [] = []"
| "join sep [p] = p"
| "join sep (p # ps) = p @ sep @ join sep ps"

section \<open>Language codes\<close>

text \<open>
  \<^verbatim>\<open>/^[a-z]{2,3}(?:-[A-Za-z]{2,8})*$/i\<close> on the trimmed string: the pieces between the
  hyphens are letters only, two or three in the first piece and two to eight in each
  later one.
\<close>

definition hyphen :: codeunit where
  "hyphen = 0x002D"

definition isSubtag :: "nat \<Rightarrow> nat \<Rightarrow> jsstring \<Rightarrow> bool" where
  "isSubtag lo hi p = (lo \<le> length p \<and> length p \<le> hi \<and> list_all isLetter p)"

definition isValidLanguageCode :: "jsval \<Rightarrow> bool" where
  "isValidLanguageCode languageCode =
     (case languageCode of
        JStr s \<Rightarrow>
          (case split hyphen (trim s) of
             [] \<Rightarrow> False
           | p # ps \<Rightarrow> isSubtag 2 3 p \<and> list_all (isSubtag 2 8) ps)
      | _ \<Rightarrow> False)"

text \<open>
  The source calls \<^verbatim>\<open>normalizeTranslationLanguageCode\<close> on strings only (the parsed source
  language, and a requested target that passed \<open>isValidLanguageCode\<close>); the empty string
  is the one falsy string.
\<close>

definition normalizeTranslationLanguageCode :: "env \<Rightarrow> jsstring \<Rightarrow> jsstring" where
  "normalizeTranslationLanguageCode env languageCode =
     (if languageCode = [] then js ''en''
      else let normalized = toLowerCase env (trim languageCode) in
        if startsWith normalized (js ''my'') then js ''my''
        else if startsWith normalized (js ''en'') then js ''en''
        else (case split hyphen normalized of [] \<Rightarrow> [] | p # ps \<Rightarrow> p))"

definition resolveTargetLanguage :: "env \<Rightarrow> jsstring \<Rightarrow> jsval \<Rightarrow> jsstring" where
  "resolveTargetLanguage env sourceLanguageCode requestedTargetLanguage =
     (let requested =
            (case requestedTargetLanguage of
               JStr r \<Rightarrow>
                 if isValidLanguageCode requestedTargetLanguage
                 then Some (normalizeTranslationLanguageCode env r) else None
             | _ \<Rightarrow> None)
      in case requested of
           Some normalizedRequested \<Rightarrow>
             if normalizedRequested = js ''en'' \<or> normalizedRequested = js ''my''
             then normalizedRequested
             else (if normalizeTranslationLanguageCode env sourceLanguageCode = js ''en''
                   then js ''my'' else js ''en'')
         | None \<Rightarrow>
             (if normalizeTranslationLanguageCode env sourceLanguageCode = js ''en''
              then js ''my'' else js ''en''))"

section \<open>Numbers, bytes and encodings\<close>

definition ALLOWED_ENCODINGS :: "jsstring list" where
  "ALLOWED_ENCODINGS =
     map js
       [''LINEAR16'', ''WEBM_OPUS'', ''OGG_OPUS'', ''FLAC'', ''MULAW'', ''AMR'', ''AMR_WB'',
        ''SPEEX_WITH_HEADER_BYTE'']"

text \<open>\<^verbatim>\<open>Number(v)\<close>.\<close>

definition jsNumber :: "env \<Rightarrow> jsval \<Rightarrow> string + jsnum" where
  "jsNumber env v =
     (case v of
        JUndefined \<Rightarrow> Inr NaN
      | JNull \<Rightarrow> Inr (Fin 0)
      | JBool b \<Rightarrow> Inr (Fin (if b then 1 else 0))
      | JNum n \<Rightarrow> Inr n
      | _ \<Rightarrow> toNumberOther env v)"

text \<open>\<^verbatim>\<open>n < c\<close> and \<^verbatim>\<open>n > c\<close> for a finite constant \<open>c\<close>: false on \<^verbatim>\<open>NaN\<close>.\<close>

fun numLess :: "jsnum \<Rightarrow> rat \<Rightarrow> bool" where
  "numLess NaN c = False"
| "numLess (Fin q) c = (q < c)"
| "numLess PosInf c = False"
| "numLess NegInf c = True"

fun numGreater :: "jsnum \<Rightarrow> rat \<Rightarrow> bool" where
  "numGreater NaN c = False"
| "numGreater (Fin q) c = (q > c)"
| "numGreater PosInf c = True"
| "numGreater NegInf c = False"

text \<open>
  Storing a number into a \<^verbatim>\<open>Uint8Array\<close> element: \<^verbatim>\<open>NaN\<close> and the infinities give 0,
  a finite number is truncated towards zero and taken modulo 256.
\<close>

fun toUint8 :: "jsnum \<Rightarrow> byte" where
  "toUint8 (Fin q) = word_of_int (if q < 0 then - \<lfloor>- q\<rfloor> else \<lfloor>q\<rfloor>)"
| "toUint8 n = 0"

text \<open>\<^verbatim>\<open>Buffer.from(array)\<close>: every element goes through \<^verbatim>\<open>Number\<close> and the element store.\<close>

fun bufferFromArray :: "env \<Rightarrow> jsval list \<Rightarrow> string + byte list" where
  "bufferFromArray env [] = Inr []"
| "bufferFromArray env (v # vs) =
     (case jsNumber env v of
        Inl err \<Rightarrow> Inl err
      | Inr n \<Rightarrow>
          (case bufferFromArray env vs of
             Inl err \<Rightarrow> Inl err
           | Inr bs \<Rightarrow> Inr (toUint8 n # bs)))"

text \<open>\<^verbatim>\<open>buffer.toString("base64")\<close>: the standard alphabet, padded with \<^verbatim>\<open>=\<close>.\<close>

definition equalsSign :: codeunit where
  "equalsSign = 0x003D"

definition comma :: codeunit where
  "comma = 0x002C"

definition base64Alphabet :: jsstring where
  "base64Alphabet = upperLetters @ lowerLetters @ digits @ js ''+/''"

definition base64Char :: "nat \<Rightarrow> codeunit" where
  "base64Char n = base64Alphabet ! (n mod 64)"

fun toBase64 :: "byte list \<Rightarrow> jsstring" where
  "toBase64 [] = []"
| "toBase64 [a] =
     [base64Char (unat a div 4), base64Char (unat a mod 4 * 16), equalsSign, equalsSign]"
| "toBase64 [a, b] =
     [base64Char (unat a div 4), base64Char (unat a mod 4 * 16 + unat b div 16),
      base64Char (unat b mod 16 * 4), equalsSign]"
| "toBase64 (a # b # c # bs) =
     [base64Char (unat a div 4), base64Char (unat a mod 4 * 16 + unat b div 16),
      base64Char (unat b mod 16 * 4 + unat c div 64), base64Char (unat c mod 64)]
     @ toBase64 bs"

section \<open>Audio payload\<close>

text \<open>\<^verbatim>\<open>/^[A-Za-z0-9+/=]+$/\<close> is \<open>s \<noteq> [] \<and> list_all isBase64Char s\<close>; the last three
  units are \<^verbatim>\<open>+\<close>, \<^verbatim>\<open>/\<close> and \<^verbatim>\<open>=\<close>.\<close>

definition isBase64Char :: "codeunit \<Rightarrow> bool" where
  "isBase64Char c =
     (isUpper c \<or> isLower c \<or> isDigit c \<or> unat c = 0x2B \<or> unat c = 0x2F \<or> unat c = 0x3D)"

text \<open>
  \<^verbatim>\<open>audio.slice(audio.indexOf(",") + 1)\<close>: what follows the first comma, and the whole
  string when there is none (\<^verbatim>\<open>indexOf\<close> is then -1).
\<close>

definition afterFirstComma :: "jsstring \<Rightarrow> jsstring" where
  "afterFirstComma s =
     (if comma \<in> set s then tl (dropWhile (\<lambda>c. c \<noteq> comma) s) else s)"

definition normalizeAudioToBase64 :: "env \<Rightarrow> jsval \<Rightarrow> string + jsstring" where
  "normalizeAudioToBase64 env audio =
     (case audio of
        JStr s \<Rightarrow>
          (let withoutPrefix = (if startsWith s (js ''data:'') then afterFirstComma s else s);
               normalized = filter (\<lambda>c. \<not> isWhiteSpace c) withoutPrefix
           in if normalized = [] then Inl ''Empty audio payload''
              else if \<not> list_all isBase64Char normalized
              then Inl ''Audio payload is not valid base64''
              else Inr normalized)
      | JBuffer bs \<Rightarrow> Inr (toBase64 bs)
      | JUint8Array bs \<Rightarrow> Inr (toBase64 bs)
      | JArr vs \<Rightarrow>
          (case bufferFromArray env vs of
             Inl err \<Rightarrow> Inl err
           | Inr bs \<Rightarrow> Inr (toBase64 bs))
      | _ \<Rightarrow> Inl ''Unsupported audio payload type'')"

record parsed_payload =
  audioBase64 :: jsstring
  sourceLanguageCode :: jsstring
  targetLanguageCode :: jsstring
  recipientId :: jsstring
  sampleRateHertz :: jsnum
  encoding :: jsstring
  sequenceId :: jsval

definition parseAudioPayload :: "env \<Rightarrow> jsval \<Rightarrow> string + parsed_payload" where
  "parseAudioPayload env data =
     (if \<not> truthy data \<or> \<not> isObject data then Inl ''Invalid payload''
      else if (case getProp data (js ''to'') of JStr t \<Rightarrow> trim t = [] | _ \<Rightarrow> True)
      then Inl ''Missing recipient id''
      else
        let source =
              (case getProp data (js ''language'') of
                 JStr l \<Rightarrow> if isValidLanguageCode (JStr l) then trim l else js ''en-US''
               | _ \<Rightarrow> js ''en-US'');
            target = resolveTargetLanguage env source (getProp data (js ''targetLanguage''));
            normalizedEncoding =
              (case getProp data (js ''encoding'') of
                 JStr e \<Rightarrow> Some (toUpperCase env (trim e))
               | _ \<Rightarrow> None);
            enc =
              (case normalizedEncoding of
                 Some e \<Rightarrow> if e \<in> set ALLOWED_ENCODINGS then e else js ''LINEAR16''
               | None \<Rightarrow> js ''LINEAR16'')
        in case jsNumber env
                  (if truthy (getProp data (js ''sampleRateHertz''))
                   then getProp data (js ''sampleRateHertz'') else JNum (Fin 16000)) of
             Inl err \<Rightarrow> Inl err
           | Inr rate \<Rightarrow>
               if rate = NaN \<or> numLess rate 8000 \<or> numGreater rate 48000
               then Inl ''Invalid sample rate''
               else
                 (case normalizeAudioToBase64 env (getProp data (js ''audio'')) of
                    Inl err \<Rightarrow> Inl err
                  | Inr b64 \<Rightarrow>
                      let audioSizeInBytes = int (base64ByteLength env b64) in
                        if audioSizeInBytes = 0 \<or> audioSizeInBytes > MAX_AUDIO_BYTES env
                        then Inl ''Audio payload size is invalid''
                        else Inr \<lparr>audioBase64 = b64,
                                  sourceLanguageCode = source,
                                  targetLanguageCode = target,
                                  recipientId =
                                    (case getProp data (js ''to'') of JStr t \<Rightarrow> trim t | _ \<Rightarrow> []),
                                  sampleRateHertz = rate,
                                  encoding = enc,
                                  sequenceId =
                                    (case getProp data (js ''sequenceId'') of
                                       JUndefined \<Rightarrow> JNull
                                     | v \<Rightarrow> v)\<rparr>))"

section \<open>External services\<close>

text \<open>
  The requests built for \<^verbatim>\<open>client.recognize\<close> and \<^verbatim>\<open>translationClient.translateText\<close>,
  and the parts of their answers that the handler reads. A missing property is \<open>None\<close>.
\<close>

record stt_request =
  config_encoding :: jsstring
  config_sampleRateHertz :: jsnum
  config_languageCode :: jsstring
  config_enableAutomaticPunctuation :: bool
  audio_content :: jsstring

record translate_request =
  parent :: jsstring
  contents :: "jsstring list"
  mimeType :: jsstring
  request_sourceLanguageCode :: jsstring
  request_targetLanguageCode :: jsstring

datatype alternative = Alternative (transcript: "jsstring option")

datatype recognition_result = RecognitionResult (alternatives: "alternative list option")

datatype stt_response = SttResponse (results: "recognition_result list option")

datatype translation = Translation (translatedText: "jsstring option")

datatype translate_response = TranslateResponse (translationsOf: "translation list option")

text \<open>
  How an awaited call settles. A rejection, and a resolved value on which the handler's
  reads throw, both land in the \<^verbatim>\<open>catch\<close> block; the rejection reason is taken to be an
  object, as the client libraries give, so that the \<^verbatim>\<open>catch\<close> block itself returns.
\<close>

datatype 'a settled = Rejected | Resolved 'a

section \<open>What a connection does\<close>

record result_payload =
  result_text :: jsstring
  result_translated :: jsstring
  result_from :: jsstring
  result_to :: jsstring
  result_sequenceId :: jsval

text \<open>
  The observable actions of the \<^verbatim>\<open>audioRecording\<close> handler: \<^verbatim>\<open>emitSttError\<close> to the
  sender (code and message; the time stamp is left out), \<^verbatim>\<open>sttResult\<close> to the room of the
  recipient, and the two external calls.
\<close>

datatype effect =
    EmitSttError string string
  | EmitSttResult jsstring result_payload
  | CallRecognize stt_request
  | CallTranslateText translate_request

text \<open>Where a unit of work waits: at \<^verbatim>\<open>await client.recognize\<close> or at
  \<^verbatim>\<open>await translationClient.translateText\<close>, with the locals it resumes with.\<close>

datatype stage =
    AwaitRecognize parsed_payload
  | AwaitTranslate parsed_payload jsstring

datatype progress = Done | Await stage

text \<open>
  \<^verbatim>\<open>socket.user\<close> and \<^verbatim>\<open>socket.data\<close>. The promise chain \<^verbatim>\<open>sttQueue\<close> is the unit that has
  started and waits for a call (\<open>running\<close>, if any) and the callbacks that are chained
  and have not started, oldest first, each with the \<^verbatim>\<open>data\<close> it closes over (\<open>waiting\<close>).
  Two fields observe the run and are not read by the handler: \<open>submitted\<close> counts the
  \<^verbatim>\<open>audioRecording\<close> events so far and numbers them, and \<open>emitted\<close> lists every effect with
  the number of the event it belongs to.
\<close>

record session =
  user :: jsstring
  sttRateTimestamps :: "int list"
  pendingSttRequests :: int
  running :: "(nat \<times> stage) option"
  waiting :: "(nat \<times> jsval) list"
  submitted :: nat
  emitted :: "(nat \<times> effect) list"

text \<open>The state of a new connection, for the identity that the middleware has bound.\<close>

definition connection :: "jsstring \<Rightarrow> session" where
  "connection callerId =
     \<lparr>user = callerId, sttRateTimestamps = [], pendingSttRequests = 0, running = None,
      waiting = [], submitted = 0, emitted = []\<rparr>"

definition emit :: "nat \<Rightarrow> effect list \<Rightarrow> session \<Rightarrow> session" where
  "emit i effs s = s\<lparr>emitted := emitted s @ map (Pair i) effs\<rparr>"

section \<open>The audio pipeline\<close>

text \<open>\<open>now\<close> is the value of \<^verbatim>\<open>Date.now()\<close>.\<close>

definition isRateLimited :: "env \<Rightarrow> int \<Rightarrow> session \<Rightarrow> bool \<times> session" where
  "isRateLimited env now s =
     (let recentTimestamps =
            filter (\<lambda>timestamp. now - timestamp < RATE_LIMIT_WINDOW_MS env)
              (sttRateTimestamps s)
      in if int (length recentTimestamps) \<ge> RATE_LIMIT_MAX_REQUESTS env
         then (True, s\<lparr>sttRateTimestamps := recentTimestamps\<rparr>)
         else (False, s\<lparr>sttRateTimestamps := recentTimestamps @ [now]\<rparr>))"

text \<open>The callback given to \<^verbatim>\<open>then\<close>, from its start to the first \<^verbatim>\<open>await\<close> or its return.\<close>

definition validateAndRecognize :: "env \<Rightarrow> jsval \<Rightarrow> effect list \<times> progress" where
  "validateAndRecognize env data =
     (case parseAudioPayload env data of
        Inl message \<Rightarrow> ([EmitSttError ''STT_INVALID_PAYLOAD'' message], Done)
      | Inr parsedPayload \<Rightarrow>
          ([CallRecognize
              \<lparr>config_encoding = encoding parsedPayload,
               config_sampleRateHertz = sampleRateHertz parsedPayload,
               config_languageCode = sourceLanguageCode parsedPayload,
               config_enableAutomaticPunctuation = True,
               audio_content = audioBase64 parsedPayload\<rparr>],
           Await (AwaitRecognize parsedPayload)))"

definition workStart ::
  "env \<Rightarrow> int \<Rightarrow> jsval \<Rightarrow> session \<Rightarrow> effect list \<times> progress \<times> session" where
  "workStart env now data s =
     (case isRateLimited env now s of
        (True, s') \<Rightarrow>
          ([EmitSttError ''STT_RATE_LIMITED'' ''Too many audio requests in a short time''],
           Done, s')
      | (False, s') \<Rightarrow>
          (case validateAndRecognize env data of (effs, pr) \<Rightarrow> (effs, pr, s')))"

text \<open>The transcript: the first alternative of every result, joined by spaces, trimmed.\<close>

definition firstTranscript :: "recognition_result \<Rightarrow> jsstring" where
  "firstTranscript result =
     (case alternatives result of
        Some (a # as) \<Rightarrow> (case transcript a of Some t \<Rightarrow> t | None \<Rightarrow> [])
      | _ \<Rightarrow> [])"

definition transcriptionOf :: "stt_response \<Rightarrow> jsstring" where
  "transcriptionOf sttResponse =
     trim (join (js '' '')
       (map firstTranscript (case results sttResponse of Some rs \<Rightarrow> rs | None \<Rightarrow> [])))"

definition resultPayload ::
  "jsstring \<Rightarrow> parsed_payload \<Rightarrow> jsstring \<Rightarrow> jsstring \<Rightarrow> effect" where
  "resultPayload sender parsedPayload transcription translated =
     EmitSttResult (recipientId parsedPayload)
       \<lparr>result_text = transcription,
        result_translated = translated,
        result_from = sender,
        result_to = recipientId parsedPayload,
        result_sequenceId = sequenceId parsedPayload\<rparr>"

definition processingFailed :: effect where
  "processingFailed = EmitSttError ''STT_PROCESSING_FAILED'' ''Unable to process this audio chunk''"

text \<open>The callback resumed after \<^verbatim>\<open>await client.recognize(sttRequest)\<close>. An empty or
  missing \<^verbatim>\<open>projectId\<close> is falsy.\<close>

definition afterRecognize ::
  "env \<Rightarrow> jsstring \<Rightarrow> parsed_payload \<Rightarrow> stt_response settled \<Rightarrow>
   effect list \<times> progress" where
  "afterRecognize env sender parsedPayload outcome =
     (case outcome of
        Rejected \<Rightarrow> ([processingFailed], Done)
      | Resolved sttResponse \<Rightarrow>
          let transcription = transcriptionOf sttResponse in
            if transcription = [] then ([], Done)
            else
              let source =
                    normalizeTranslationLanguageCode env (sourceLanguageCode parsedPayload)
              in case projectId env of
                   None \<Rightarrow> ([resultPayload sender parsedPayload transcription transcription], Done)
                 | Some project \<Rightarrow>
                     if project = []
                     then ([resultPayload sender parsedPayload transcription transcription], Done)
                     else if source \<noteq> targetLanguageCode parsedPayload
                     then ([CallTranslateText
                              \<lparr>parent = js ''projects/'' @ project @ js ''/locations/global'',
                               contents = [transcription],
                               mimeType = js ''text/plain'',
                               request_sourceLanguageCode = source,
                               request_targetLanguageCode = targetLanguageCode parsedPayload\<rparr>],
                           Await (AwaitTranslate parsedPayload transcription))
                     else ([resultPayload sender parsedPayload transcription transcription], Done))"

text \<open>The callback resumed after \<^verbatim>\<open>await translationClient.translateText(translateRequest)\<close>.\<close>

definition firstTranslation :: "translate_response option \<Rightarrow> jsstring \<Rightarrow> jsstring" where
  "firstTranslation translationResponse transcription =
     (case translationResponse of
        Some r \<Rightarrow>
          (case translationsOf r of
             Some (t # ts) \<Rightarrow>
               (case translatedText t of
                  Some x \<Rightarrow> if x = [] then transcription else x
                | None \<Rightarrow> transcription)
           | _ \<Rightarrow> transcription)
      | None \<Rightarrow> transcription)"

definition afterTranslate ::
  "jsstring \<Rightarrow> parsed_payload \<Rightarrow> jsstring \<Rightarrow> translate_response option settled \<Rightarrow>
   effect list \<times> progress" where
  "afterTranslate sender parsedPayload transcription outcome =
     (case outcome of
        Rejected \<Rightarrow> ([processingFailed], Done)
      | Resolved translationResponse \<Rightarrow>
          ([resultPayload sender parsedPayload transcription
              (firstTranslation translationResponse transcription)], Done))"

text \<open>The callback given to \<^verbatim>\<open>finally\<close>.\<close>

definition finallyHandler :: "session \<Rightarrow> session" where
  "finallyHandler s = s\<lparr>pendingSttRequests := max 0 (pendingSttRequests s - 1)\<rparr>"

section \<open>The promise chain\<close>

text \<open>
  Every admitted event replaces \<^verbatim>\<open>sttQueue\<close> by
  \<^verbatim>\<open>sttQueue.then(work).finally(cleanup)\<close>. The handler only chains: \<^verbatim>\<open>work\<close> is called
  in a later microtask, once the promise before it has settled, so several handlers can
  run, each seeing the count the ones before it left, before any chained callback starts.
  The promise of the asynchronous \<^verbatim>\<open>work\<close> settles when its body has returned, past every
  \<^verbatim>\<open>await\<close>, and \<^verbatim>\<open>cleanup\<close> runs then. So when microtasks run with nothing waiting for a
  call, the chained callbacks run in order until one of them reaches an \<^verbatim>\<open>await\<close>: a
  callback that returns settles its promise, its \<^verbatim>\<open>finally\<close> callback runs, and the next
  one starts. Every callback that starts reads the clock for itself: \<open>now k\<close> is the
  reading of the one that starts after \<open>k\<close> others in the same turn.
\<close>

type_synonym clock = "nat \<Rightarrow> int"

fun runQueue :: "env \<Rightarrow> clock \<Rightarrow> (nat \<times> jsval) list \<Rightarrow> session \<Rightarrow> session" where
  "runQueue env now [] s = s\<lparr>running := None, waiting := []\<rparr>"
| "runQueue env now ((i, data) # queue) s =
     (case workStart env (now 0) data s of
        (effs, Done, s') \<Rightarrow>
          runQueue env (\<lambda>k. now (Suc k)) queue (finallyHandler (emit i effs s'))
      | (effs, Await st, s') \<Rightarrow> (emit i effs s')\<lparr>running := Some (i, st), waiting := queue\<rparr>)"

text \<open>A unit that was waiting for a call goes on with \<open>(effs, pr)\<close>.\<close>

definition resume ::
  "env \<Rightarrow> clock \<Rightarrow> nat \<Rightarrow> effect list \<times> progress \<Rightarrow> session \<Rightarrow> session" where
  "resume env now i r s =
     (case r of
        (effs, Done) \<Rightarrow> runQueue env now (waiting s) (finallyHandler (emit i effs s))
      | (effs, Await st) \<Rightarrow> (emit i effs s)\<lparr>running := Some (i, st)\<rparr>)"

text \<open>
  The jobs that the event loop runs for one connection, each with its clock readings: a
  call of the \<^verbatim>\<open>audioRecording\<close> handler with its payload; the microtasks in which the
  chained callbacks start; and the microtasks in which the running unit resumes after the
  call it waits for has settled, and in which the callbacks behind it start once it is
  done. A list of events is any order of such jobs, so it leaves the microtasks free to
  run after one handler or after many, and the clock free to show anything.
\<close>

datatype event =
    AudioRecording int jsval
  | RunMicrotasks clock
  | RecognizeSettled clock "stt_response settled"
  | TranslateSettled clock "translate_response option settled"

definition backpressure :: effect where
  "backpressure = EmitSttError ''STT_BACKPRESSURE'' ''Too many queued audio chunks''"

text \<open>
  The \<^verbatim>\<open>audioRecording\<close> handler: it refuses the chunk, or counts it and chains its unit of
  work, and returns. The clock is read for the time stamp of the error only, which is
  left out.
\<close>

definition audioRecording :: "env \<Rightarrow> int \<Rightarrow> jsval \<Rightarrow> session \<Rightarrow> session" where
  "audioRecording env now data s =
     (let i = submitted s; s0 = s\<lparr>submitted := Suc i\<rparr> in
        if pendingSttRequests s \<ge> MAX_STT_PENDING_REQUESTS env
        then emit i [backpressure] s0
        else s0\<lparr>pendingSttRequests := pendingSttRequests s + 1,
                waiting := waiting s @ [(i, data)]\<rparr>)"

fun step :: "env \<Rightarrow> session \<Rightarrow> event \<Rightarrow> session" where
  "step env s (AudioRecording now data) = audioRecording env now data s"
| "step env s (RunMicrotasks now) =
     (case running s of
        None \<Rightarrow> runQueue env now (waiting s) s
      | Some r \<Rightarrow> s)"
| "step env s (RecognizeSettled now outcome) =
     (case running s of
        Some (i, AwaitRecognize parsedPayload) \<Rightarrow>
          resume env now i (afterRecognize env (user s) parsedPayload outcome) s
      | _ \<Rightarrow> s)"
| "step env s (TranslateSettled now outcome) =
     (case running s of
        Some (i, AwaitTranslate parsedPayload transcription) \<Rightarrow>
          resume env now i (afterTranslate (user s) parsedPayload transcription outcome) s
      | _ \<Rightarrow> s)"

definition run :: "env \<Rightarrow> jsstring \<Rightarrow> event list \<Rightarrow> session" where
  "run env callerId events = foldl (step env) (connection callerId) events"

section \<open>A sample configuration\<close>

text \<open>
  The defaults of the source, with a project id, for the examples below. The length of a
  decoded buffer is that of Node's decoder on the strings that pass the base64 test: it
  stops at the first \<^verbatim>\<open>=\<close> and every four characters before it give three bytes. The
  examples never convert a string or an object to a number, and never change the case of
  a string that is not all ASCII.
\<close>

definition base64DecodedLength :: "jsstring \<Rightarrow> nat" where
  "base64DecodedLength s = length (takeWhile (\<lambda>c. c \<noteq> equalsSign) s) * 3 div 4"

definition sampleEnv :: env where
  "sampleEnv =
     \<lparr>MAX_AUDIO_BYTES = 1024 * 1024,
      RATE_LIMIT_WINDOW_MS = 10000,
      RATE_LIMIT_MAX_REQUESTS = 20,
      MAX_STT_PENDING_REQUESTS = 8,
      projectId = Some (js ''demo-project''),
      toNumberOther = (\<lambda>v. Inr NaN),
      base64ByteLength = base64DecodedLength,
      upperCaseOther = (\<lambda>s. s),
      lowerCaseOther = (\<lambda>s. s)\<rparr>"

text \<open>Sample payloads and answers: a chunk in English with no requested target, the same
  with English requested, and a recognition answer with one transcript.\<close>

text \<open>A turn in which every reading of the clock is \<open>t\<close>.\<close>

definition allAt :: "int \<Rightarrow> clock" where
  "allAt t = (\<lambda>k. t)"

definition sampleChunk :: jsval where
  "sampleChunk =
     JObj [(js ''to'', JStr (js ''bob'')), (js ''audio'', JStr (js ''aGVsbG8='')),
           (js ''language'', JStr (js ''en-US''))]"

definition sampleChunkToEnglish :: jsval where
  "sampleChunkToEnglish =
     JObj [(js ''to'', JStr (js ''bob'')), (js ''audio'', JStr (js ''aGVsbG8='')),
           (js ''language'', JStr (js ''en-US'')), (js ''targetLanguage'', JStr (js ''en''))]"

definition helloResponse :: stt_response where
  "helloResponse =
     SttResponse (Some [RecognitionResult (Some [Alternative (Some (js ''hello''))])])"

text \<open>A chunk for \<^verbatim>\<open>bob\<close> with one more property, and the bytes of \<^verbatim>\<open>hello\<close>.\<close>

definition sampleChunkWith :: "string \<Rightarrow> jsval \<Rightarrow> jsval" where
  "sampleChunkWith k v =
     JObj [(js k, v), (js ''to'', JStr (js ''bob'')), (js ''audio'', JStr (js ''aGVsbG8=''))]"

definition helloBytes :: "byte list" where
  "helloBytes = [104, 101, 108, 108, 111]"

section \<open>Reading the log\<close>

text \<open>The outcomes of a unit of work: an \<^verbatim>\<open>sttResult\<close> or an \<^verbatim>\<open>sttError\<close>.\<close>

fun isOutcome :: "effect \<Rightarrow> bool" where
  "isOutcome (EmitSttError code message) = True"
| "isOutcome (EmitSttResult room payload) = True"
| "isOutcome e = False"

text \<open>The units of work that have been chained and have not finished.\<close>

definition outstanding :: "session \<Rightarrow> nat" where
  "outstanding s = length (waiting s) + (case running s of None \<Rightarrow> 0 | Some r \<Rightarrow> 1)"

text \<open>
  The numbers of the events behind the effects of the units of work, in the order of
  emission (a rejection for backpressure belongs to no unit), and behind their outcomes.
\<close>

definition queuedLog :: "session \<Rightarrow> nat list" where
  "queuedLog s = map fst (filter (\<lambda>(i, e). e \<noteq> backpressure) (emitted s))"

definition outcomeLog :: "session \<Rightarrow> nat list" where
  "outcomeLog s = map fst (filter (\<lambda>(i, e). isOutcome e \<and> e \<noteq> backpressure) (emitted s))"

section \<open>Invariants of the chain\<close>

text \<open>
  What one segment of a unit of work emits: never the backpressure error; at most one
  outcome when the unit is done, and none when it goes on to wait.
\<close>

definition unitEffects :: "progress \<Rightarrow> effect list \<Rightarrow> bool" where
  "unitEffects pr effs \<longleftrightarrow>
     backpressure \<notin> set effs
     \<and> (case pr of Done \<Rightarrow> length (filter isOutcome effs) \<le> 1
                  | Await st \<Rightarrow> filter isOutcome effs = [])"

text \<open>
  The log is ordered, and so are the waiting callbacks, which are behind everything in the
  log: with no unit running (\<open>readyToRun\<close>), and behind a running unit that has emitted
  no outcome yet (\<open>atUnit\<close>).
\<close>

definition logOrdered :: "session \<Rightarrow> bool" where
  "logOrdered s \<longleftrightarrow>
     sorted (queuedLog s) \<and> sorted_wrt (<) (outcomeLog s)
     \<and> (\<forall>l \<in> set (queuedLog s). l < submitted s)"

definition readyToRun :: "(nat \<times> jsval) list \<Rightarrow> session \<Rightarrow> bool" where
  "readyToRun queue s \<longleftrightarrow>
     logOrdered s \<and> sorted_wrt (<) (map fst queue)
     \<and> (\<forall>j \<in> set (map fst queue). j < submitted s \<and> (\<forall>l \<in> set (queuedLog s). l < j))"

definition atUnit :: "nat \<Rightarrow> (nat \<times> jsval) list \<Rightarrow> session \<Rightarrow> bool" where
  "atUnit i queue s \<longleftrightarrow>
     logOrdered s \<and> i < submitted s
     \<and> (\<forall>l \<in> set (queuedLog s). l \<le> i) \<and> (\<forall>l \<in> set (outcomeLog s). l < i)
     \<and> sorted_wrt (<) (map fst queue)
     \<and> (\<forall>j \<in> set (map fst queue). i < j \<and> j < submitted s)"

definition chainOrdered :: "session \<Rightarrow> bool" where
  "chainOrdered s \<longleftrightarrow>
     (case running s of
        None \<Rightarrow> readyToRun (waiting s) s
      | Some (i, st) \<Rightarrow> atUnit i (waiting s) s)"

definition sampleTranslation :: "translate_response option" where
  "sampleTranslation =
     Some (TranslateResponse (Some [Translation (Some (js ''mingalaba''))]))"

section \<open>Facts about strings\<close>

lemmas string_defs = js_def trim_def isWhiteSpace_def isAscii_def toLowerCase_def toUpperCase_def
  toLowerChar_def toUpperChar_def isUpper_def isLower_def isDigit_def lowerLetters_def
  upperLetters_def digits_def startsWith_def isLetter_def hyphen_def comma_def equalsSign_def
  Let_def

lemmas payload_defs = parseAudioPayload_def jsNumber_def normalizeAudioToBase64_def
  isBase64Char_def base64Alphabet_def base64Char_def isValidLanguageCode_def isSubtag_def
  resolveTargetLanguage_def normalizeTranslationLanguageCode_def ALLOWED_ENCODINGS_def
  afterFirstComma_def

lemmas sample_defs = sampleEnv_def base64DecodedLength_def sampleChunk_def
  sampleChunkToEnglish_def helloResponse_def sampleChunkWith_def helloBytes_def
  sampleTranslation_def

lemma split_nonempty: "split sep s \<noteq> []"
  by (induction s) (auto split: list.splits)

lemma split_head: "split sep s = p # ps \<Longrightarrow> p = takeWhile (\<lambda>c. c \<noteq> sep) s"
proof (induction s arbitrary: p ps)
  case Nil
  then show ?case by simp
next
  case (Cons c cs)
  show ?case
  proof (cases "c = sep")
    case True
    with Cons.prems show ?thesis by simp
  next
    case False
    obtain q qs where q: "split sep cs = q # qs"
      using split_nonempty [of sep cs] by (cases "split sep cs") auto
    with Cons.IH have "q = takeWhile (\<lambda>c. c \<noteq> sep) cs" by blast
    with Cons.prems False q show ?thesis by simp
  qed
qed

lemma primary_subtag:
  "(case split sep s of [] \<Rightarrow> [] | p # ps \<Rightarrow> p) = takeWhile (\<lambda>c. c \<noteq> sep) s"
  using split_head [of sep s] split_nonempty [of sep s]
  by (cases "split sep s") auto

lemma takeWhile_startsWith: "takeWhile P s = p \<Longrightarrow> startsWith s p"
  unfolding startsWith_def
  by (metis append_eq_conv_conj takeWhile_dropWhile_id)

text \<open>White space around a string that neither starts nor ends with white space is
  what \<open>trim\<close> takes off.\<close>

lemma trim_padded:
  assumes "list_all isWhiteSpace before" and "list_all isWhiteSpace after"
    and "v \<noteq> []" and "\<not> isWhiteSpace (hd v)" and "\<not> isWhiteSpace (last v)"
  shows "trim (before @ v @ after) = v"
proof -
  have "dropWhile isWhiteSpace (before @ v @ after) = dropWhile isWhiteSpace (v @ after)"
    using assms(1) by (simp add: dropWhile_append2 list_all_iff)
  also have "\<dots> = v @ after"
    using assms(3,4) by (cases v) simp_all
  finally have a: "dropWhile isWhiteSpace (before @ v @ after) = v @ after" .
  have "dropWhile isWhiteSpace (rev after @ rev v) = dropWhile isWhiteSpace (rev v)"
    using assms(2) by (intro dropWhile_append2) (simp add: list_all_iff)
  also have "\<dots> = rev v"
    using assms(3,5) by (cases "rev v") (simp_all add: hd_rev [symmetric])
  finally show ?thesis by (simp add: trim_def a)
qed

section \<open>Coarse language forms\<close>

lemma normalize_cases:
  "normalizeTranslationLanguageCode env c =
     (if c = [] then js ''en''
      else if startsWith (toLowerCase env (trim c)) (js ''my'') then js ''my''
      else if startsWith (toLowerCase env (trim c)) (js ''en'') then js ''en''
      else takeWhile (\<lambda>x. x \<noteq> hyphen) (toLowerCase env (trim c)))"
  by (simp add: normalizeTranslationLanguageCode_def Let_def primary_subtag)

lemma resolveTargetLanguage_range:
  "resolveTargetLanguage env src req \<in> {js ''en'', js ''my''}"
  by (auto simp: resolveTargetLanguage_def Let_def split: jsval.splits option.splits)

text \<open>
  C3, as stated, fails: \<^verbatim>\<open>normalizeTranslationLanguageCode("ja-JP")\<close> is \<^verbatim>\<open>"ja"\<close>, which is
  neither \<^verbatim>\<open>"en"\<close> nor \<^verbatim>\<open>"my"\<close>.
\<close>

theorem C3_normalize_not_binary:
  "normalizeTranslationLanguageCode sampleEnv (js ''ja-JP'') = js ''ja''
   \<and> normalizeTranslationLanguageCode sampleEnv (js ''ja-JP'') \<notin> {js ''en'', js ''my''}"
  by (simp add: normalizeTranslationLanguageCode_def string_defs)

text \<open>
  C3, amended: it is the resolved target language that is always \<^verbatim>\<open>"en"\<close> or \<^verbatim>\<open>"my"\<close>, for
  every source code and every requested target. The coarse normalization gives \<^verbatim>\<open>"en"\<close> or
  \<^verbatim>\<open>"my"\<close> exactly for the empty code and for the codes that, trimmed and in lower case,
  start with \<^verbatim>\<open>my\<close> or \<^verbatim>\<open>en\<close>; every other code is returned as its own primary subtag,
  the part before the first hyphen, in lower case.
\<close>

theorem C3_coarse_forms:
  "resolveTargetLanguage env src req \<in> {js ''en'', js ''my''}
   \<and> (normalizeTranslationLanguageCode env c \<in> {js ''en'', js ''my''} \<longleftrightarrow>
        (c = [] \<or> startsWith (toLowerCase env (trim c)) (js ''my'')
         \<or> startsWith (toLowerCase env (trim c)) (js ''en'')))
   \<and> normalizeTranslationLanguageCode env c =
       (if c = [] then js ''en''
        else if startsWith (toLowerCase env (trim c)) (js ''my'') then js ''my''
        else if startsWith (toLowerCase env (trim c)) (js ''en'') then js ''en''
        else takeWhile (\<lambda>x. x \<noteq> hyphen) (toLowerCase env (trim c)))"
proof (intro conjI)
  show "resolveTargetLanguage env src req \<in> {js ''en'', js ''my''}"
    by (rule resolveTargetLanguage_range)
  show "normalizeTranslationLanguageCode env c =
       (if c = [] then js ''en''
        else if startsWith (toLowerCase env (trim c)) (js ''my'') then js ''my''
        else if startsWith (toLowerCase env (trim c)) (js ''en'') then js ''en''
        else takeWhile (\<lambda>x. x \<noteq> hyphen) (toLowerCase env (trim c)))"
    by (rule normalize_cases)
  show "normalizeTranslationLanguageCode env c \<in> {js ''en'', js ''my''} \<longleftrightarrow>
        (c = [] \<or> startsWith (toLowerCase env (trim c)) (js ''my'')
         \<or> startsWith (toLowerCase env (trim c)) (js ''en''))"
    using takeWhile_startsWith [of "\<lambda>x. x \<noteq> hyphen" "toLowerCase env (trim c)"]
    by (auto simp: normalize_cases)
qed

theorem C3_coarse_forms_witness:
  "resolveTargetLanguage sampleEnv (js ''fr'') (JStr (js ''ja'')) = js ''en''
   \<and> resolveTargetLanguage sampleEnv (js ''en-US'') (JStr (js ''ja'')) = js ''my''
   \<and> normalizeTranslationLanguageCode sampleEnv (js ''EN-GB'') = js ''en''
   \<and> normalizeTranslationLanguageCode sampleEnv (js '' My-MM'') = js ''my''
   \<and> normalizeTranslationLanguageCode sampleEnv (js ''fr'') = js ''fr''"
  using C3_coarse_forms [of sampleEnv "js ''fr''" "JStr (js ''ja'')" "js ''fr''"]
    C3_coarse_forms [of sampleEnv "js ''en-US''" "JStr (js ''ja'')" "js ''EN-GB''"]
    C3_coarse_forms [of sampleEnv "js ''en-US''" "JStr (js ''ja'')" "js '' My-MM''"]
  by (simp add: resolveTargetLanguage_def isValidLanguageCode_def isSubtag_def
      normalizeTranslationLanguageCode_def string_defs)

section \<open>Sample rate\<close>

text \<open>
  C4, as stated, fails: a chunk with sample rate 7000 is not parsed with the default
  16000, it is refused with \<^verbatim>\<open>Invalid sample rate\<close>.
\<close>

theorem C4_out_of_range_rejected:
  "parseAudioPayload sampleEnv (sampleChunkWith ''sampleRateHertz'' (JNum (Fin 7000)))
   = Inl ''Invalid sample rate''"
  by (simp add: parseAudioPayload_def jsNumber_def string_defs sampleChunkWith_def)

lemma in_range:
  "n \<noteq> NaN \<Longrightarrow> \<not> numLess n 8000 \<Longrightarrow> \<not> numGreater n 48000 \<Longrightarrow>
   \<exists>q. n = Fin q \<and> 8000 \<le> q \<and> q \<le> 48000"
  by (cases n) auto

text \<open>
  C4, amended: for a payload object with a recipient id, a supplied sample rate that is
  truthy and whose number is \<^verbatim>\<open>NaN\<close>, below 8000 or above 48000 (so every number other than
  0 outside the range) makes parsing fail with \<^verbatim>\<open>Invalid sample rate\<close>, which the unit of
  work reports as \<^verbatim>\<open>STT_INVALID_PAYLOAD\<close> without calling a service. The default 16000
  stands in for a falsy value only (absent, \<^verbatim>\<open>null\<close>, 0, \<^verbatim>\<open>NaN\<close>, the empty string,
  \<^verbatim>\<open>false\<close>); a truthy value that parses is used as supplied. The sample rate of a parsed
  payload is always a finite number from 8000 to 48000.
\<close>

theorem C4_sample_rate:
  assumes "truthy data" and "isObject data"
    and "getProp data (js ''to'') = JStr t" and "trim t \<noteq> []"
  shows "(truthy (getProp data (js ''sampleRateHertz''))
           \<and> jsNumber env (getProp data (js ''sampleRateHertz'')) = Inr n
           \<and> (n = NaN \<or> numLess n 8000 \<or> numGreater n 48000)
          \<longrightarrow> parseAudioPayload env data = Inl ''Invalid sample rate''
              \<and> validateAndRecognize env data =
                  ([EmitSttError ''STT_INVALID_PAYLOAD'' ''Invalid sample rate''], Done))
       \<and> (\<not> truthy (getProp data (js ''sampleRateHertz''))
           \<and> parseAudioPayload env data = Inr p
          \<longrightarrow> sampleRateHertz p = Fin 16000)
       \<and> (truthy (getProp data (js ''sampleRateHertz''))
           \<and> parseAudioPayload env data = Inr p
          \<longrightarrow> jsNumber env (getProp data (js ''sampleRateHertz'')) = Inr (sampleRateHertz p))
       \<and> (parseAudioPayload env data = Inr p
          \<longrightarrow> (\<exists>q. sampleRateHertz p = Fin q \<and> 8000 \<le> q \<and> q \<le> 48000))"
proof (intro conjI impI)
  assume a: "truthy (getProp data (js ''sampleRateHertz''))
           \<and> jsNumber env (getProp data (js ''sampleRateHertz'')) = Inr n
           \<and> (n = NaN \<or> numLess n 8000 \<or> numGreater n 48000)"
  with assms show e: "parseAudioPayload env data = Inl ''Invalid sample rate''"
    by (auto simp: parseAudioPayload_def Let_def)
  then show "validateAndRecognize env data =
      ([EmitSttError ''STT_INVALID_PAYLOAD'' ''Invalid sample rate''], Done)"
    by (simp add: validateAndRecognize_def)
next
  assume a: "\<not> truthy (getProp data (js ''sampleRateHertz''))
      \<and> parseAudioPayload env data = Inr p"
  with assms show "sampleRateHertz p = Fin 16000"
    by (auto simp: parseAudioPayload_def jsNumber_def Let_def split: sum.splits if_splits)
next
  assume a: "truthy (getProp data (js ''sampleRateHertz''))
      \<and> parseAudioPayload env data = Inr p"
  with assms
  show "jsNumber env (getProp data (js ''sampleRateHertz'')) = Inr (sampleRateHertz p)"
    by (auto simp: parseAudioPayload_def Let_def split: sum.splits if_splits)
next
  assume a: "parseAudioPayload env data = Inr p"
  have "sampleRateHertz p \<noteq> NaN \<and> \<not> numLess (sampleRateHertz p) 8000
      \<and> \<not> numGreater (sampleRateHertz p) 48000"
    using a unfolding parseAudioPayload_def Let_def
    by (auto split: sum.splits if_splits)
  then show "\<exists>q. sampleRateHertz p = Fin q \<and> 8000 \<le> q \<and> q \<le> 48000"
    using in_range by blast
qed

theorem C4_sample_rate_witness:
  "parseAudioPayload sampleEnv (sampleChunkWith ''sampleRateHertz'' (JNum (Fin 96000)))
     = Inl ''Invalid sample rate''
   \<and> parseAudioPayload sampleEnv (sampleChunkWith ''sampleRateHertz'' (JNum PosInf))
     = Inl ''Invalid sample rate''
   \<and> (\<exists>p. parseAudioPayload sampleEnv (sampleChunkWith ''sampleRateHertz'' (JNum (Fin 0)))
            = Inr p
          \<and> sampleRateHertz p = Fin 16000)
   \<and> (\<exists>p. parseAudioPayload sampleEnv (sampleChunkWith ''sampleRateHertz'' (JNum NaN)) = Inr p
          \<and> sampleRateHertz p = Fin 16000)
   \<and> (\<exists>p. parseAudioPayload sampleEnv (sampleChunkWith ''sampleRateHertz'' (JNum (Fin 44100)))
            = Inr p
          \<and> sampleRateHertz p = Fin 44100)"
proof -
  let ?d = "\<lambda>v. sampleChunkWith ''sampleRateHertz'' v"
  have g: "getProp (?d v) (js ''sampleRateHertz'') = v"
    "getProp (?d v) (js ''to'') = JStr (js ''bob'')" "truthy (?d v)" "isObject (?d v)" for v
    by (simp_all add: sampleChunkWith_def js_def)
  have t: "trim (js ''bob'') \<noteq> []" by (simp add: string_defs)
  have ok: "v \<in> {JNum (Fin 0), JNum NaN, JNum (Fin 44100)} \<Longrightarrow>
      \<exists>p. parseAudioPayload sampleEnv (?d v) = Inr p" for v
    by (auto simp: payload_defs string_defs sample_defs)
  note c4 = C4_sample_rate [OF g(3) g(4) g(2) t, where env = sampleEnv]
  have "parseAudioPayload sampleEnv (?d (JNum (Fin 96000))) = Inl ''Invalid sample rate''"
    using c4 [where v1 = "JNum (Fin 96000)" and n = "Fin 96000"] g(1)
    by (simp add: jsNumber_def)
  moreover have "parseAudioPayload sampleEnv (?d (JNum PosInf)) = Inl ''Invalid sample rate''"
    using c4 [where v1 = "JNum PosInf" and n = PosInf] g(1)
    by (simp add: jsNumber_def)
  moreover have "\<exists>p. parseAudioPayload sampleEnv (?d (JNum (Fin 0))) = Inr p
      \<and> sampleRateHertz p = Fin 16000"
  proof -
    obtain p where p: "parseAudioPayload sampleEnv (?d (JNum (Fin 0))) = Inr p"
      using ok [of "JNum (Fin 0)"] by auto
    with c4 [where v1 = "JNum (Fin 0)" and p = p] g(1) show ?thesis by simp
  qed
  moreover have "\<exists>p. parseAudioPayload sampleEnv (?d (JNum NaN)) = Inr p
      \<and> sampleRateHertz p = Fin 16000"
  proof -
    obtain p where p: "parseAudioPayload sampleEnv (?d (JNum NaN)) = Inr p"
      using ok [of "JNum NaN"] by auto
    with c4 [where v1 = "JNum NaN" and p = p] g(1) show ?thesis by simp
  qed
  moreover have "\<exists>p. parseAudioPayload sampleEnv (?d (JNum (Fin 44100))) = Inr p
      \<and> sampleRateHertz p = Fin 44100"
  proof -
    obtain p where p: "parseAudioPayload sampleEnv (?d (JNum (Fin 44100))) = Inr p"
      using ok [of "JNum (Fin 44100)"] by auto
    with c4 [where v1 = "JNum (Fin 44100)" and p = p] g(1) show ?thesis
      by (simp add: jsNumber_def)
  qed
  ultimately show ?thesis by simp
qed

section \<open>Encoding\<close>

lemma parse_encoding:
  "parseAudioPayload env data = Inr p \<Longrightarrow>
   encoding p =
     (case getProp data (js ''encoding'') of
        JStr e \<Rightarrow> if toUpperCase env (trim e) \<in> set ALLOWED_ENCODINGS
                  then toUpperCase env (trim e) else js ''LINEAR16''
      | _ \<Rightarrow> js ''LINEAR16'')"
  unfolding parseAudioPayload_def Let_def
  by (cases "getProp data (js ''encoding'')") (auto split: sum.splits if_splits)

lemma parse_encoding_irrelevant:
  "map_sum id (\<lambda>p. p\<lparr>encoding := []\<rparr>)
     (parseAudioPayload env (JObj ((js ''encoding'', e) # fs)))
   = map_sum id (\<lambda>p. p\<lparr>encoding := []\<rparr>)
       (parseAudioPayload env (JObj ((js ''encoding'', e') # fs)))"
  unfolding parseAudioPayload_def Let_def
  by (simp add: js_def split: sum.splits)

text \<open>Where the code units of white space, of the names on the allow-list and of the
  base64 alphabet lie.\<close>

lemma white_range: "isWhiteSpace c \<Longrightarrow> unat c \<le> 32 \<or> 160 \<le> unat c"
  by (auto simp: isWhiteSpace_def Let_def)

lemma allowed_range:
  "a \<in> set ALLOWED_ENCODINGS \<Longrightarrow> c \<in> set a \<Longrightarrow> 48 \<le> unat c \<and> unat c \<le> 95"
  by (auto simp: ALLOWED_ENCODINGS_def js_def)

lemma base64_range: "isBase64Char c \<Longrightarrow> 43 \<le> unat c \<and> unat c \<le> 122"
  by (auto simp: isBase64Char_def isUpper_def isLower_def isDigit_def)

lemma upper_preimage:
  assumes "48 \<le> unat (toUpperChar c) \<and> unat (toUpperChar c) \<le> 95"
  shows "isAscii c \<and> \<not> isWhiteSpace c"
proof (cases "isLower c")
  case False
  then have "48 \<le> unat c \<and> unat c \<le> 95"
    using assms by (simp add: toUpperChar_def)
  then show ?thesis
    using white_range [of c] by (auto simp: isAscii_def)
next
  case True
  then show ?thesis
    using white_range [of c] by (auto simp: isAscii_def isLower_def)
qed

lemma variant_accepted:
  assumes "a \<in> set ALLOWED_ENCODINGS" and "map toUpperChar v = a"
    and "list_all isWhiteSpace before" and "list_all isWhiteSpace after"
  shows "toUpperCase env (trim (before @ v @ after)) = a"
proof -
  have u: "\<forall>c \<in> set v. isAscii c \<and> \<not> isWhiteSpace c"
  proof
    fix c assume "c \<in> set v"
    then have "toUpperChar c \<in> set a" using assms(2) by auto
    then show "isAscii c \<and> \<not> isWhiteSpace c"
      using allowed_range [OF assms(1)] upper_preimage by blast
  qed
  have "a \<noteq> []" using assms(1) by (auto simp: ALLOWED_ENCODINGS_def js_def)
  then have v: "v \<noteq> []" using assms(2) by auto
  then have "\<not> isWhiteSpace (hd v)" "\<not> isWhiteSpace (last v)" using u by simp_all
  then have "trim (before @ v @ after) = v"
    using trim_padded [OF assms(3,4) v] by simp
  moreover have "list_all isAscii v" using u by (simp add: list_all_iff)
  ultimately show ?thesis using assms(2) by (simp add: toUpperCase_def)
qed

text \<open>
  C9: in a parsed payload the encoding is the supplied string, trimmed and in upper case,
  when that is on the allow-list, and \<^verbatim>\<open>LINEAR16\<close> for every other string and for every
  value that is not a string. In particular a name on the allow-list is accepted in any
  mix of upper and lower case and with any white space before and after it. The encoding
  never causes an error: two payloads that differ in the \<^verbatim>\<open>encoding\<close> property only fail
  with the same message, or both parse, to payloads that differ in the encoding only.
\<close>

theorem C9_encoding:
  "(parseAudioPayload env data = Inr p \<longrightarrow>
      encoding p =
        (case getProp data (js ''encoding'') of
           JStr e \<Rightarrow> if toUpperCase env (trim e) \<in> set ALLOWED_ENCODINGS
                     then toUpperCase env (trim e) else js ''LINEAR16''
         | _ \<Rightarrow> js ''LINEAR16''))
   \<and> (a \<in> set ALLOWED_ENCODINGS \<and> map toUpperChar v = a
        \<and> list_all isWhiteSpace before \<and> list_all isWhiteSpace after
        \<and> getProp data (js ''encoding'') = JStr (before @ v @ after)
        \<and> parseAudioPayload env data = Inr p
      \<longrightarrow> encoding p = a)
   \<and> map_sum id (\<lambda>p. p\<lparr>encoding := []\<rparr>)
        (parseAudioPayload env (JObj ((js ''encoding'', e) # fs)))
     = map_sum id (\<lambda>p. p\<lparr>encoding := []\<rparr>)
         (parseAudioPayload env (JObj ((js ''encoding'', e') # fs)))"
proof (intro conjI impI)
  show "encoding p =
        (case getProp data (js ''encoding'') of
           JStr e \<Rightarrow> if toUpperCase env (trim e) \<in> set ALLOWED_ENCODINGS
                     then toUpperCase env (trim e) else js ''LINEAR16''
         | _ \<Rightarrow> js ''LINEAR16'')"
    if "parseAudioPayload env data = Inr p"
    using that by (rule parse_encoding)
  show "encoding p = a"
    if h: "a \<in> set ALLOWED_ENCODINGS \<and> map toUpperChar v = a
        \<and> list_all isWhiteSpace before \<and> list_all isWhiteSpace after
        \<and> getProp data (js ''encoding'') = JStr (before @ v @ after)
        \<and> parseAudioPayload env data = Inr p"
  proof -
    have "toUpperCase env (trim (before @ v @ after)) = a"
      using h variant_accepted by blast
    with h parse_encoding [of env data p] show ?thesis by simp
  qed
  show "map_sum id (\<lambda>p. p\<lparr>encoding := []\<rparr>)
        (parseAudioPayload env (JObj ((js ''encoding'', e) # fs)))
     = map_sum id (\<lambda>p. p\<lparr>encoding := []\<rparr>)
         (parseAudioPayload env (JObj ((js ''encoding'', e') # fs)))"
    by (rule parse_encoding_irrelevant)
qed

lemma sample_parses:
  "\<exists>p. parseAudioPayload sampleEnv (sampleChunkWith ''encoding'' v) = Inr p"
  by (simp add: payload_defs string_defs sample_defs)

theorem C9_encoding_witness:
  "(\<exists>p. parseAudioPayload sampleEnv (sampleChunkWith ''encoding'' (JStr (js '' flac ''))) = Inr p
        \<and> encoding p = js ''FLAC'')
   \<and> (\<exists>p. parseAudioPayload sampleEnv
            (sampleChunkWith ''encoding'' (JStr ([0x00A0, 0xFEFF] @ js ''Ogg_Opus'' @ [0x2028])))
          = Inr p
        \<and> encoding p = js ''OGG_OPUS'')
   \<and> (\<exists>p. parseAudioPayload sampleEnv (sampleChunkWith ''encoding'' (JStr (js '' linear16 '')))
          = Inr p
        \<and> encoding p = js ''LINEAR16'')
   \<and> (\<exists>p. parseAudioPayload sampleEnv (sampleChunkWith ''encoding'' (JStr (js ''MP3''))) = Inr p
        \<and> encoding p = js ''LINEAR16'')
   \<and> (\<exists>p. parseAudioPayload sampleEnv (sampleChunkWith ''encoding'' (JStr (js ''fl ac'')))
          = Inr p
        \<and> encoding p = js ''LINEAR16'')
   \<and> (\<exists>p. parseAudioPayload sampleEnv (sampleChunkWith ''encoding'' (JNum (Fin 7))) = Inr p
        \<and> encoding p = js ''LINEAR16'')"
proof -
  have g: "getProp (sampleChunkWith ''encoding'' v) (js ''encoding'') = v" for v
    by (simp add: sampleChunkWith_def)
  have variant: "\<exists>p. parseAudioPayload sampleEnv
        (sampleChunkWith ''encoding'' (JStr (before @ v @ after))) = Inr p \<and> encoding p = a"
    if "a \<in> set ALLOWED_ENCODINGS" and "map toUpperChar v = a"
      and "list_all isWhiteSpace before" and "list_all isWhiteSpace after"
    for a v before after
  proof -
    obtain p where p: "parseAudioPayload sampleEnv
        (sampleChunkWith ''encoding'' (JStr (before @ v @ after))) = Inr p"
      using sample_parses by blast
    with that g
      C9_encoding [where env = sampleEnv and p = p and a = a and v = v and before = before
        and after = after
        and data = "sampleChunkWith ''encoding'' (JStr (before @ v @ after))"]
    show ?thesis by blast
  qed
  have other: "\<exists>p. parseAudioPayload sampleEnv (sampleChunkWith ''encoding'' v) = Inr p
      \<and> encoding p =
        (case v of
           JStr e \<Rightarrow> if toUpperCase sampleEnv (trim e) \<in> set ALLOWED_ENCODINGS
                     then toUpperCase sampleEnv (trim e) else js ''LINEAR16''
         | _ \<Rightarrow> js ''LINEAR16'')" for v
  proof -
    obtain p where p: "parseAudioPayload sampleEnv (sampleChunkWith ''encoding'' v) = Inr p"
      using sample_parses [of v] by blast
    with g C9_encoding [where env = sampleEnv and p = p
        and data = "sampleChunkWith ''encoding'' v"]
    show ?thesis by simp
  qed
  have 1: "js '' flac '' = js '' '' @ js ''flac'' @ js '' ''" by (simp add: js_def)
  have a: "js ''FLAC'' \<in> set ALLOWED_ENCODINGS" "js ''OGG_OPUS'' \<in> set ALLOWED_ENCODINGS"
    "js ''LINEAR16'' \<in> set ALLOWED_ENCODINGS"
    by (simp_all add: ALLOWED_ENCODINGS_def)
  have u: "map toUpperChar (js ''flac'') = js ''FLAC''"
    "map toUpperChar (js ''Ogg_Opus'') = js ''OGG_OPUS''"
    "map toUpperChar (js ''linear16'') = js ''LINEAR16''"
    by (simp_all add: string_defs)
  have w: "list_all isWhiteSpace (js '' '')" "list_all isWhiteSpace [0x00A0, 0xFEFF]"
    "list_all isWhiteSpace [0x2028]"
    by (simp_all add: string_defs)
  have 3: "js '' linear16 '' = js '' '' @ js ''linear16'' @ js '' ''" by (simp add: js_def)
  show ?thesis
    using variant [OF a(1) u(1) w(1) w(1)] variant [OF a(2) u(2) w(2) w(3)]
      variant [OF a(3) u(3) w(1) w(1)]
      other [of "JStr (js ''MP3'')"] other [of "JStr (js ''fl ac'')"] other [of "JNum (Fin 7)"]
    unfolding 1 3
    by (simp add: string_defs ALLOWED_ENCODINGS_def)
qed

section \<open>Audio payload normalization\<close>

lemma base64_not_white: "isBase64Char c \<Longrightarrow> \<not> isWhiteSpace c"
  using base64_range [of c] white_range [of c] by auto

lemma base64_no_colon: "list_all isBase64Char s \<Longrightarrow> \<not> startsWith s (js ''data:'')"
proof
  assume a: "list_all isBase64Char s" and b: "startsWith s (js ''data:'')"
  from b have "take (length (js ''data:'')) s = js ''data:''" by (simp only: startsWith_def)
  then have "set (js ''data:'') \<subseteq> set s" by (metis set_take_subset)
  then have "0x003A \<in> set s" by (simp add: js_def)
  with a have "isBase64Char 0x003A" by (simp add: list_all_iff)
  then show False
    by (simp add: isBase64Char_def isUpper_def isLower_def isDigit_def)
qed

lemma filter_base64: "list_all isBase64Char s \<Longrightarrow> filter (\<lambda>c. \<not> isWhiteSpace c) s = s"
  by (induction s) (auto simp: base64_not_white)

lemma afterFirstComma_prefix:
  "comma \<notin> set m \<Longrightarrow> afterFirstComma (m @ [comma] @ w) = w"
  by (simp add: afterFirstComma_def dropWhile_append3 dropWhile_append)

lemma normalize_plain:
  assumes "s \<noteq> []" and "list_all isBase64Char s"
  shows "normalizeAudioToBase64 env (JStr s) = Inr s"
  using assms base64_no_colon [of s]
  by (simp add: normalizeAudioToBase64_def Let_def filter_base64)

lemma normalize_whitespace:
  assumes "\<not> startsWith w (js ''data:'')" and "filter (\<lambda>c. \<not> isWhiteSpace c) w = b"
    and "b \<noteq> []" and "list_all isBase64Char b"
  shows "normalizeAudioToBase64 env (JStr w) = Inr b"
  using assms by (simp add: normalizeAudioToBase64_def Let_def)

lemma normalize_data_uri:
  assumes "comma \<notin> set m" and "filter (\<lambda>c. \<not> isWhiteSpace c) w = b"
    and "b \<noteq> []" and "list_all isBase64Char b"
  shows "normalizeAudioToBase64 env (JStr (js ''data:'' @ m @ [comma] @ w)) = Inr b"
proof -
  have "comma \<notin> set (js ''data:'' @ m)"
    using assms(1) by (simp add: js_def comma_def)
  then have "afterFirstComma ((js ''data:'' @ m) @ [comma] @ w) = w"
    by (rule afterFirstComma_prefix)
  moreover have "startsWith (js ''data:'' @ m @ [comma] @ w) (js ''data:'')"
    by (simp add: startsWith_def)
  ultimately show ?thesis
    using assms by (simp add: normalizeAudioToBase64_def Let_def)
qed

lemma bufferFromArray_numbers: "bufferFromArray env (map JNum ns) = Inr (map toUint8 ns)"
  by (induction ns) (simp_all add: jsNumber_def)

lemma audio_error_reported:
  assumes "normalizeAudioToBase64 env (getProp data (js ''audio'')) = Inl msg"
  shows "\<exists>m. parseAudioPayload env data = Inl m
           \<and> validateAndRecognize env data = ([EmitSttError ''STT_INVALID_PAYLOAD'' m], Done)"
proof -
  have "\<exists>m. parseAudioPayload env data = Inl m"
    using assms unfolding parseAudioPayload_def Let_def
    by (simp split: sum.splits)
  then show ?thesis
    by (auto simp: validateAndRecognize_def)
qed

text \<open>
  C10: \<^verbatim>\<open>normalizeAudioToBase64\<close> returns a non-empty string over the base64 alphabet as
  it is; it returns \<open>b\<close> for a string that is \<open>b\<close> with white space anywhere in it, and
  for such a string behind \<^verbatim>\<open>data:\<close>, a media type with no comma, and a comma; it returns
  the base64 encoding of a \<^verbatim>\<open>Buffer\<close>, of a \<^verbatim>\<open>Uint8Array\<close> and of an array of numbers,
  each number stored as a byte; it throws \<^verbatim>\<open>Unsupported audio payload type\<close> for a number,
  a plain object, \<^verbatim>\<open>null\<close>, \<^verbatim>\<open>undefined\<close> and a boolean. Whenever it throws on the
  \<^verbatim>\<open>audio\<close> property, parsing fails and the unit of work emits \<^verbatim>\<open>STT_INVALID_PAYLOAD\<close> to
  the sender and calls no service.
\<close>

theorem C10_audio_normalization:
  "(b \<noteq> [] \<and> list_all isBase64Char b \<longrightarrow> normalizeAudioToBase64 env (JStr b) = Inr b)
   \<and> (b \<noteq> [] \<and> list_all isBase64Char b \<and> filter (\<lambda>c. \<not> isWhiteSpace c) w = b \<longrightarrow>
        (comma \<notin> set m \<longrightarrow>
           normalizeAudioToBase64 env (JStr (js ''data:'' @ m @ [comma] @ w)) = Inr b)
        \<and> (\<not> startsWith w (js ''data:'') \<longrightarrow> normalizeAudioToBase64 env (JStr w) = Inr b))
   \<and> normalizeAudioToBase64 env (JBuffer bs) = Inr (toBase64 bs)
   \<and> normalizeAudioToBase64 env (JUint8Array bs) = Inr (toBase64 bs)
   \<and> normalizeAudioToBase64 env (JArr (map JNum ns)) = Inr (toBase64 (map toUint8 ns))
   \<and> normalizeAudioToBase64 env (JNum n) = Inl ''Unsupported audio payload type''
   \<and> normalizeAudioToBase64 env (JObj fs) = Inl ''Unsupported audio payload type''
   \<and> normalizeAudioToBase64 env JNull = Inl ''Unsupported audio payload type''
   \<and> normalizeAudioToBase64 env JUndefined = Inl ''Unsupported audio payload type''
   \<and> normalizeAudioToBase64 env (JBool t) = Inl ''Unsupported audio payload type''
   \<and> (normalizeAudioToBase64 env (getProp data (js ''audio'')) = Inl msg \<longrightarrow>
        (\<exists>m. parseAudioPayload env data = Inl m
           \<and> validateAndRecognize env data = ([EmitSttError ''STT_INVALID_PAYLOAD'' m], Done)))"
proof (intro conjI impI)
  show "normalizeAudioToBase64 env (JStr b) = Inr b"
    if "b \<noteq> [] \<and> list_all isBase64Char b"
    using that normalize_plain by blast
  show "normalizeAudioToBase64 env (JStr (js ''data:'' @ m @ [comma] @ w)) = Inr b"
    if "b \<noteq> [] \<and> list_all isBase64Char b \<and> filter (\<lambda>c. \<not> isWhiteSpace c) w = b"
      and "comma \<notin> set m"
    using that normalize_data_uri by blast
  show "normalizeAudioToBase64 env (JStr w) = Inr b"
    if "b \<noteq> [] \<and> list_all isBase64Char b \<and> filter (\<lambda>c. \<not> isWhiteSpace c) w = b"
      and "\<not> startsWith w (js ''data:'')"
    using that normalize_whitespace by blast
  show "normalizeAudioToBase64 env (JArr (map JNum ns)) = Inr (toBase64 (map toUint8 ns))"
    by (simp add: normalizeAudioToBase64_def bufferFromArray_numbers)
  show "\<exists>m. parseAudioPayload env data = Inl m
      \<and> validateAndRecognize env data = ([EmitSttError ''STT_INVALID_PAYLOAD'' m], Done)"
    if "normalizeAudioToBase64 env (getProp data (js ''audio'')) = Inl msg"
    using that by (rule audio_error_reported)
qed (simp_all add: normalizeAudioToBase64_def)

theorem C10_audio_normalization_witness:
  "normalizeAudioToBase64 sampleEnv (JStr (js ''aGVsbG8='')) = Inr (js ''aGVsbG8='')
   \<and> normalizeAudioToBase64 sampleEnv (JStr (js ''data:audio/wav;base64,aGVs bG8= ''))
       = Inr (js ''aGVsbG8='')
   \<and> normalizeAudioToBase64 sampleEnv
        (JStr ([0xFEFF] @ js ''aGVs'' @ [0x00A0, 0x000A, 0x2029, 0x3000] @ js ''bG8=''))
       = Inr (js ''aGVsbG8='')
   \<and> normalizeAudioToBase64 sampleEnv (JBuffer helloBytes) = Inr (js ''aGVsbG8='')
   \<and> normalizeAudioToBase64 sampleEnv (JUint8Array helloBytes) = Inr (js ''aGVsbG8='')
   \<and> normalizeAudioToBase64 sampleEnv
        (JArr (map JNum [Fin 104, Fin 101, Fin 108, Fin 108, Fin 111]))
       = Inr (js ''aGVsbG8='')
   \<and> validateAndRecognize sampleEnv (sampleChunkWith ''audio'' (JNum (Fin 12345)))
       = ([EmitSttError ''STT_INVALID_PAYLOAD'' ''Unsupported audio payload type''], Done)
   \<and> validateAndRecognize sampleEnv (sampleChunkWith ''audio'' JNull)
       = ([EmitSttError ''STT_INVALID_PAYLOAD'' ''Unsupported audio payload type''], Done)"
proof -
  let ?b = "js ''aGVsbG8=''"
  let ?w1 = "js ''aGVs bG8= ''"
  let ?w2 = "[0xFEFF] @ js ''aGVs'' @ [0x00A0, 0x000A, 0x2029, 0x3000] @ js ''bG8=''"
  let ?m = "js ''audio/wav;base64''"
  have b: "?b \<noteq> [] \<and> list_all isBase64Char ?b"
    by (simp add: isBase64Char_def base64Alphabet_def string_defs)
  have w1: "filter (\<lambda>c. \<not> isWhiteSpace c) ?w1 = ?b"
    and w2: "filter (\<lambda>c. \<not> isWhiteSpace c) ?w2 = ?b"
    by (simp_all add: isWhiteSpace_def js_def)
  have m: "comma \<notin> set ?m" by (simp add: js_def comma_def)
  have nd: "\<not> startsWith ?w2 (js ''data:'')" by (simp add: startsWith_def js_def)
  have uri: "js ''data:audio/wav;base64,aGVs bG8= '' = js ''data:'' @ ?m @ [comma] @ ?w1"
    by (simp add: js_def comma_def)
  have a: "getProp (sampleChunkWith ''audio'' v) (js ''audio'') = v" for v
    by (simp add: sampleChunkWith_def)
  note t1 = C10_audio_normalization [where env = sampleEnv and b = ?b and w = ?w1
      and m = ?m and bs = helloBytes
      and ns = "[Fin 104, Fin 101, Fin 108, Fin 108, Fin 111]" and n = "Fin 12345"
      and data = "sampleChunkWith ''audio'' (JNum (Fin 12345))"
      and msg = "''Unsupported audio payload type''"]
  note t2 = C10_audio_normalization [where env = sampleEnv and b = ?b and w = ?w2
      and data = "sampleChunkWith ''audio'' JNull"
      and msg = "''Unsupported audio payload type''"]
  have p: "parseAudioPayload sampleEnv (sampleChunkWith ''audio'' v)
      = Inl ''Unsupported audio payload type''" if "v \<in> {JNum (Fin 12345), JNull}" for v
    using that by (auto simp: payload_defs string_defs sample_defs)
  have e: "toBase64 helloBytes = ?b"
    "toBase64 (map toUint8 [Fin 104, Fin 101, Fin 108, Fin 108, Fin 111]) = ?b"
    by (simp_all add: helloBytes_def base64Char_def base64Alphabet_def string_defs)
  have x: "validateAndRecognize sampleEnv (sampleChunkWith ''audio'' (JNum (Fin 12345)))
       = ([EmitSttError ''STT_INVALID_PAYLOAD'' ''Unsupported audio payload type''], Done)"
    using t1 a [of "JNum (Fin 12345)"] p [of "JNum (Fin 12345)"] by auto
  have y: "validateAndRecognize sampleEnv (sampleChunkWith ''audio'' JNull)
       = ([EmitSttError ''STT_INVALID_PAYLOAD'' ''Unsupported audio payload type''], Done)"
    using t2 a [of JNull] p [of JNull] by auto
  from t1 t2 b w1 w2 m nd e x y show ?thesis
    unfolding uri by simp
qed

section \<open>Runs\<close>

lemma run_snoc: "run env callerId (events @ [e]) = step env (run env callerId events) e"
  by (simp add: run_def)

lemmas run_defs = run_def allAt_def connection_def audioRecording_def emit_def workStart_def
  isRateLimited_def validateAndRecognize_def resume_def finallyHandler_def afterRecognize_def
  afterTranslate_def firstTranslation_def resultPayload_def processingFailed_def
  backpressure_def Let_def

text \<open>The sample configuration, payloads and answers, evaluated.\<close>

lemma sample_consts:
  "MAX_STT_PENDING_REQUESTS sampleEnv = 8" "RATE_LIMIT_WINDOW_MS sampleEnv = 10000"
  "RATE_LIMIT_MAX_REQUESTS sampleEnv = 20" "projectId sampleEnv = Some (js ''demo-project'')"
  by (simp_all add: sampleEnv_def)

lemma parse_samples:
  "parseAudioPayload sampleEnv sampleChunk =
     Inr \<lparr>audioBase64 = js ''aGVsbG8='', sourceLanguageCode = js ''en-US'',
          targetLanguageCode = js ''my'', recipientId = js ''bob'',
          sampleRateHertz = Fin 16000, encoding = js ''LINEAR16'', sequenceId = JNull\<rparr>"
  "parseAudioPayload sampleEnv sampleChunkToEnglish =
     Inr \<lparr>audioBase64 = js ''aGVsbG8='', sourceLanguageCode = js ''en-US'',
          targetLanguageCode = js ''en'', recipientId = js ''bob'',
          sampleRateHertz = Fin 16000, encoding = js ''LINEAR16'', sequenceId = JNull\<rparr>"
  "parseAudioPayload sampleEnv JNull = Inl ''Invalid payload''"
  by (simp_all add: payload_defs string_defs sample_defs)

lemma sample_answers:
  "transcriptionOf helloResponse = js ''hello''"
  "transcriptionOf (SttResponse (Some [])) = []"
  "transcriptionOf (SttResponse None) = []"
  "transcriptionOf
     (SttResponse (Some [RecognitionResult (Some [Alternative (Some (js '' ''))]),
        RecognitionResult None])) = []"
  "normalizeTranslationLanguageCode sampleEnv (js ''en-US'') = js ''en''"
  by (simp_all add: transcriptionOf_def firstTranscript_def helloResponse_def
      normalizeTranslationLanguageCode_def string_defs)

lemma js_append: "js a @ js b = js (a @ b)"
  by (simp add: js_def)

lemma js_nonempty: "js (c # cs) \<noteq> []"
  by (simp add: js_def)

lemma en_not_my: "js ''en'' \<noteq> js ''my''"
  by (simp add: js_def)

lemmas sample_run = run_defs sample_consts parse_samples sample_answers sampleTranslation_def
  js_append js_nonempty en_not_my

section \<open>Backpressure\<close>

text \<open>
  C2: an \<^verbatim>\<open>audioRecording\<close> event that finds \<^verbatim>\<open>pendingSttRequests\<close> at or above
  \<^verbatim>\<open>MAX_STT_PENDING_REQUESTS\<close> emits \<^verbatim>\<open>STT_BACKPRESSURE\<close> to the sender at once and does
  nothing else: the chain (the running unit and the waiting callbacks), the pending count
  and the rate history are as before, and no service is called.
\<close>

theorem C2_backpressure:
  assumes "MAX_STT_PENDING_REQUESTS env \<le> pendingSttRequests s"
  shows "emitted (audioRecording env now data s) =
           emitted s @ [(submitted s,
             EmitSttError ''STT_BACKPRESSURE'' ''Too many queued audio chunks'')]
       \<and> waiting (audioRecording env now data s) = waiting s
       \<and> running (audioRecording env now data s) = running s
       \<and> pendingSttRequests (audioRecording env now data s) = pendingSttRequests s
       \<and> sttRateTimestamps (audioRecording env now data s) = sttRateTimestamps s"
  using assms by (simp add: audioRecording_def Let_def emit_def backpressure_def)

theorem C2_backpressure_witness:
  "MAX_STT_PENDING_REQUESTS sampleEnv
     \<le> pendingSttRequests
         (run sampleEnv (js ''alice'') (replicate 8 (AudioRecording 0 sampleChunk)))
   \<and> run sampleEnv (js ''alice'') (replicate 9 (AudioRecording 0 sampleChunk))
     = (run sampleEnv (js ''alice'') (replicate 8 (AudioRecording 0 sampleChunk)))
         \<lparr>submitted := 9,
          emitted :=
            emitted (run sampleEnv (js ''alice'') (replicate 8 (AudioRecording 0 sampleChunk)))
            @ [(8, EmitSttError ''STT_BACKPRESSURE'' ''Too many queued audio chunks'')]\<rparr>"
proof -
  let ?s = "run sampleEnv (js ''alice'') (replicate 8 (AudioRecording 0 sampleChunk))"
  have p: "pendingSttRequests ?s = 8" and n: "submitted ?s = 8"
    by (simp_all add: run_defs sample_consts eval_nat_numeral)
  have h: "MAX_STT_PENDING_REQUESTS sampleEnv \<le> pendingSttRequests ?s"
    by (simp add: p sample_consts)
  have "replicate (Suc 8) (AudioRecording 0 sampleChunk)
      = replicate 8 (AudioRecording 0 sampleChunk) @ [AudioRecording 0 sampleChunk]"
    by (simp only: replicate_Suc replicate_append_same)
  moreover have "(9::nat) = Suc 8" by simp
  ultimately have r: "run sampleEnv (js ''alice'') (replicate 9 (AudioRecording 0 sampleChunk))
      = audioRecording sampleEnv 0 sampleChunk ?s"
    by (simp only: run_snoc step.simps)
  from C2_backpressure [OF h, of 0 sampleChunk] n r h show ?thesis
    by (simp add: session.equality audioRecording_def Let_def emit_def)
qed

section \<open>Rate limit\<close>

text \<open>
  C5: when a unit of work starts at time \<open>now\<close>, the time stamps that are not within the
  window before \<open>now\<close> are dropped. If as many as \<^verbatim>\<open>RATE_LIMIT_MAX_REQUESTS\<close> remain, the
  unit emits \<^verbatim>\<open>STT_RATE_LIMITED\<close> and is done, with no service call, and the stored list is
  the pruned one, without \<open>now\<close>. Otherwise the stored list is the pruned one followed by
  \<open>now\<close>, and the unit goes on to validate the payload.
\<close>

theorem C5_rate_limit:
  assumes "recent = filter (\<lambda>t. now - t < RATE_LIMIT_WINDOW_MS env) (sttRateTimestamps s)"
  shows "(RATE_LIMIT_MAX_REQUESTS env \<le> int (length recent) \<longrightarrow>
            workStart env now data s =
              ([EmitSttError ''STT_RATE_LIMITED'' ''Too many audio requests in a short time''],
               Done, s\<lparr>sttRateTimestamps := recent\<rparr>))
       \<and> (int (length recent) < RATE_LIMIT_MAX_REQUESTS env \<longrightarrow>
            workStart env now data s =
              (fst (validateAndRecognize env data), snd (validateAndRecognize env data),
               s\<lparr>sttRateTimestamps := recent @ [now]\<rparr>))"
  using assms by (simp add: workStart_def isRateLimited_def Let_def split: prod.splits)

text \<open>Twenty chunks, each refused as invalid in its own turn at time 0, fill the window.\<close>

lemma twenty_rounds:
  "sttRateTimestamps
     (run sampleEnv (js ''alice'') (concat (replicate 20 [AudioRecording 0 JNull, RunMicrotasks (allAt 0)])))
   = replicate 20 0"
  by (simp add: run_defs sample_consts parse_samples eval_nat_numeral)

theorem C5_rate_limit_witness:
  "sttRateTimestamps
     (run sampleEnv (js ''alice'') (concat (replicate 20 [AudioRecording 0 JNull, RunMicrotasks (allAt 0)])))
     = replicate 20 0
   \<and> workStart sampleEnv 9999 sampleChunk
       (run sampleEnv (js ''alice'')
          (concat (replicate 20 [AudioRecording 0 JNull, RunMicrotasks (allAt 0)])))
     = ([EmitSttError ''STT_RATE_LIMITED'' ''Too many audio requests in a short time''], Done,
        run sampleEnv (js ''alice'')
          (concat (replicate 20 [AudioRecording 0 JNull, RunMicrotasks (allAt 0)])))
   \<and> fst (snd (workStart sampleEnv 10000 sampleChunk
       (run sampleEnv (js ''alice'')
          (concat (replicate 20 [AudioRecording 0 JNull, RunMicrotasks (allAt 0)])))))
     \<noteq> Done
   \<and> sttRateTimestamps (snd (snd (workStart sampleEnv 10000 sampleChunk
       (run sampleEnv (js ''alice'')
          (concat (replicate 20 [AudioRecording 0 JNull, RunMicrotasks (allAt 0)]))))))
     = [10000]"
proof -
  let ?s = "run sampleEnv (js ''alice'')
      (concat (replicate 20 [AudioRecording 0 JNull, RunMicrotasks (allAt 0)]))"
  have ts: "sttRateTimestamps ?s = replicate 20 0" by (rule twenty_rounds)
  have w: "RATE_LIMIT_WINDOW_MS sampleEnv = 10000" "RATE_LIMIT_MAX_REQUESTS sampleEnv = 20"
    by (simp_all add: sampleEnv_def)
  have r1: "replicate 20 0 = filter (\<lambda>t. 9999 - t < RATE_LIMIT_WINDOW_MS sampleEnv)
      (sttRateTimestamps ?s)"
    by (simp add: ts w)
  have r2: "[] = filter (\<lambda>t. 10000 - t < RATE_LIMIT_WINDOW_MS sampleEnv)
      (sttRateTimestamps ?s)"
    by (simp add: ts w)
  have v: "snd (validateAndRecognize sampleEnv sampleChunk) \<noteq> Done"
    by (simp add: validateAndRecognize_def parse_samples)
  have same: "?s\<lparr>sttRateTimestamps := replicate 20 0\<rparr> = ?s"
    using ts by (simp add: session.equality)
  from C5_rate_limit [OF r1, of sampleChunk] C5_rate_limit [OF r2, of sampleChunk] ts w v same
  show ?thesis by simp
qed

section \<open>Translation skipped\<close>

text \<open>
  C7: when the coarse form of the source language of a parsed payload equals its resolved
  target language, the unit of work, resumed with any outcome of the recognition call,
  finishes without calling \<^verbatim>\<open>translateText\<close>; every result it emits has the transcript as
  its translated text, and for a non-empty transcript it emits exactly that result.
\<close>

theorem C7_same_language:
  assumes "normalizeTranslationLanguageCode env (sourceLanguageCode p) = targetLanguageCode p"
  shows "snd (afterRecognize env sender p outcome) = Done
       \<and> (\<forall>req. CallTranslateText req \<notin> set (fst (afterRecognize env sender p outcome)))
       \<and> (\<forall>room r. EmitSttResult room r \<in> set (fst (afterRecognize env sender p outcome))
            \<longrightarrow> result_translated r = result_text r)
       \<and> (\<forall>response. outcome = Resolved response \<and> transcriptionOf response \<noteq> [] \<longrightarrow>
            fst (afterRecognize env sender p outcome) =
              [EmitSttResult (recipientId p)
                 \<lparr>result_text = transcriptionOf response,
                  result_translated = transcriptionOf response,
                  result_from = sender,
                  result_to = recipientId p,
                  result_sequenceId = sequenceId p\<rparr>])"
  using assms
  by (cases outcome)
    (auto simp: afterRecognize_def Let_def resultPayload_def processingFailed_def
      split: option.splits)

theorem C7_same_language_witness:
  "emitted (run sampleEnv (js ''alice'')
      [AudioRecording 0 sampleChunkToEnglish, RunMicrotasks (allAt 0),
       RecognizeSettled (allAt 5) (Resolved helloResponse)])
   = [(0, CallRecognize
           \<lparr>config_encoding = js ''LINEAR16'', config_sampleRateHertz = Fin 16000,
            config_languageCode = js ''en-US'', config_enableAutomaticPunctuation = True,
            audio_content = js ''aGVsbG8=''\<rparr>),
      (0, EmitSttResult (js ''bob'')
           \<lparr>result_text = js ''hello'', result_translated = js ''hello'',
            result_from = js ''alice'', result_to = js ''bob'', result_sequenceId = JNull\<rparr>)]"
proof -
  let ?p = "\<lparr>audioBase64 = js ''aGVsbG8='', sourceLanguageCode = js ''en-US'',
      targetLanguageCode = js ''en'', recipientId = js ''bob'', sampleRateHertz = Fin 16000,
      encoding = js ''LINEAR16'', sequenceId = JNull\<rparr>"
  let ?call = "CallRecognize
           \<lparr>config_encoding = js ''LINEAR16'', config_sampleRateHertz = Fin 16000,
            config_languageCode = js ''en-US'', config_enableAutomaticPunctuation = True,
            audio_content = js ''aGVsbG8=''\<rparr>"
  let ?result = "EmitSttResult (js ''bob'')
           \<lparr>result_text = js ''hello'', result_translated = js ''hello'',
            result_from = js ''alice'', result_to = js ''bob'', result_sequenceId = JNull\<rparr>"
  have same: "normalizeTranslationLanguageCode sampleEnv (sourceLanguageCode ?p)
      = targetLanguageCode ?p"
    by (simp add: sample_answers)
  have ne: "js ''hello'' \<noteq> []" by (rule js_nonempty)
  let ?s = "run sampleEnv (js ''alice'') [AudioRecording 0 sampleChunkToEnglish, RunMicrotasks (allAt 0)]"
  have r: "running ?s = Some (0, AwaitRecognize ?p)" and w: "waiting ?s = []"
    and u: "user ?s = js ''alice''" and e: "emitted ?s = [(0, ?call)]"
    by (simp_all add: run_defs sample_consts parse_samples)
  obtain effs pr where a: "afterRecognize sampleEnv (js ''alice'') ?p (Resolved helloResponse)
      = (effs, pr)"
    by (cases "afterRecognize sampleEnv (js ''alice'') ?p (Resolved helloResponse)")
  from C7_same_language [OF same, of "js ''alice''" "Resolved helloResponse"] a ne
  have "pr = Done" and "effs = [?result]"
    by (simp_all add: sample_answers)
  with a r w u e have "emitted (step sampleEnv ?s (RecognizeSettled (allAt 5) (Resolved helloResponse)))
    = [(0, ?call), (0, ?result)]"
    by (simp add: resume_def emit_def finallyHandler_def)
  moreover have "run sampleEnv (js ''alice'')
      [AudioRecording 0 sampleChunkToEnglish, RunMicrotasks (allAt 0),
       RecognizeSettled (allAt 5) (Resolved helloResponse)]
    = step sampleEnv ?s (RecognizeSettled (allAt 5) (Resolved helloResponse))"
    using run_snoc [of sampleEnv "js ''alice''"
        "[AudioRecording 0 sampleChunkToEnglish, RunMicrotasks (allAt 0)]"] by simp
  ultimately show ?thesis by simp
qed

section \<open>Silence\<close>

lemma emit_nothing: "emit i [] s = s"
  by (simp add: emit_def)

text \<open>
  C8: when the recognition answer gives an empty transcript (the first alternatives,
  joined by spaces and trimmed), the unit of work emits nothing, neither a result nor an
  error, and is done: the step only runs the \<^verbatim>\<open>finally\<close> callback and starts what waits
  behind it.
\<close>

theorem C8_empty_transcript:
  assumes "transcriptionOf response = []"
  shows "afterRecognize env sender p (Resolved response) = ([], Done)
       \<and> (running s = Some (i, AwaitRecognize p) \<longrightarrow>
            step env s (RecognizeSettled now (Resolved response)) =
              runQueue env now (waiting s) (finallyHandler s))
       \<and> (running s = Some (i, AwaitRecognize p) \<and> waiting s = [] \<longrightarrow>
            emitted (step env s (RecognizeSettled now (Resolved response))) = emitted s)"
  using assms
  by (simp add: afterRecognize_def resume_def emit_nothing finallyHandler_def)

theorem C8_empty_transcript_witness:
  "transcriptionOf (SttResponse (Some [])) = []
   \<and> transcriptionOf
        (SttResponse (Some [RecognitionResult (Some [Alternative (Some (js '' ''))]),
           RecognitionResult None])) = []
   \<and> emitted (run sampleEnv (js ''alice'')
        [AudioRecording 0 sampleChunk, RunMicrotasks (allAt 0),
         RecognizeSettled (allAt 5) (Resolved (SttResponse (Some [])))])
     = emitted (run sampleEnv (js ''alice'') [AudioRecording 0 sampleChunk, RunMicrotasks (allAt 0)])
   \<and> map fst (emitted (run sampleEnv (js ''alice'')
        [AudioRecording 0 sampleChunk, RunMicrotasks (allAt 0)])) = [0]"
proof -
  let ?s = "run sampleEnv (js ''alice'') [AudioRecording 0 sampleChunk, RunMicrotasks (allAt 0)]"
  let ?p = "\<lparr>audioBase64 = js ''aGVsbG8='', sourceLanguageCode = js ''en-US'',
      targetLanguageCode = js ''my'', recipientId = js ''bob'', sampleRateHertz = Fin 16000,
      encoding = js ''LINEAR16'', sequenceId = JNull\<rparr>"
  note e = sample_answers(2,4)
  have r: "running ?s = Some (0, AwaitRecognize ?p)" and w: "waiting ?s = []"
    and l: "map fst (emitted ?s) = [0]"
    by (simp_all add: run_defs sample_consts parse_samples)
  have "emitted (step sampleEnv ?s (RecognizeSettled (allAt 5) (Resolved (SttResponse (Some [])))))
      = emitted ?s"
    using C8_empty_transcript [OF e(1), of sampleEnv "js ''alice''" ?p ?s 0 "allAt 5"] r w by blast
  moreover have "run sampleEnv (js ''alice'')
      [AudioRecording 0 sampleChunk, RunMicrotasks (allAt 0),
       RecognizeSettled (allAt 5) (Resolved (SttResponse (Some [])))]
    = step sampleEnv ?s (RecognizeSettled (allAt 5) (Resolved (SttResponse (Some []))))"
    using run_snoc [of sampleEnv "js ''alice''" "[AudioRecording 0 sampleChunk, RunMicrotasks (allAt 0)]"]
    by simp
  ultimately show ?thesis using e l by simp
qed

section \<open>Pending count\<close>

lemma workStart_fields:
  assumes "workStart env now data s = (effs, pr, s')"
  shows "pendingSttRequests s' = pendingSttRequests s" and "emitted s' = emitted s"
    and "submitted s' = submitted s" and "running s' = running s" and "waiting s' = waiting s"
    and "user s' = user s"
  using assms
  by (auto simp: workStart_def isRateLimited_def Let_def split: if_splits prod.splits)

lemma runQueue_pending:
  "pendingSttRequests s = int (length queue) \<Longrightarrow>
   pendingSttRequests (runQueue env now queue s) = int (outstanding (runQueue env now queue s))"
proof (induction queue arbitrary: s now)
  case Nil
  then show ?case by (simp add: outstanding_def)
next
  case (Cons a queue)
  obtain i data where a: "a = (i, data)" by (cases a)
  obtain effs pr s' where w: "workStart env (now 0) data s = (effs, pr, s')"
    by (cases "workStart env (now 0) data s")
  note f = workStart_fields [OF w]
  show ?case
  proof (cases pr)
    case Done
    have "pendingSttRequests (finallyHandler (emit i effs s')) = int (length queue)"
      using Cons.prems f(1) by (simp add: finallyHandler_def emit_def)
    from Cons.IH [OF this] show ?thesis using a w Done by simp
  next
    case (Await st)
    then show ?thesis
      using a w Cons.prems f(1) by (simp add: outstanding_def emit_def)
  qed
qed

lemma resume_pending:
  assumes "pendingSttRequests s = int (outstanding s)" and "running s = Some (i, st)"
  shows "pendingSttRequests (resume env now i r s) = int (outstanding (resume env now i r s))"
proof -
  obtain effs pr where r: "r = (effs, pr)" by (cases r)
  show ?thesis
  proof (cases pr)
    case Done
    have "pendingSttRequests (finallyHandler (emit i effs s)) = int (length (waiting s))"
      using assms by (simp add: finallyHandler_def emit_def outstanding_def)
    from runQueue_pending [OF this] show ?thesis using r Done by (simp add: resume_def)
  next
    case (Await st')
    then show ?thesis using assms r by (simp add: resume_def emit_def outstanding_def)
  qed
qed

lemma audioRecording_pending:
  assumes "pendingSttRequests s = int (outstanding s)"
  shows "pendingSttRequests (audioRecording env now data s)
      = int (outstanding (audioRecording env now data s))"
  using assms by (simp add: audioRecording_def Let_def emit_def outstanding_def)

lemma step_pending:
  assumes "pendingSttRequests s = int (outstanding s)"
  shows "pendingSttRequests (step env s e) = int (outstanding (step env s e))"
proof (cases e)
  case (AudioRecording now data)
  then show ?thesis using audioRecording_pending [OF assms] by simp
next
  case (RunMicrotasks now)
  show ?thesis
  proof (cases "running s")
    case None
    then have "pendingSttRequests s = int (length (waiting s))"
      using assms by (simp add: outstanding_def)
    from runQueue_pending [OF this] show ?thesis using RunMicrotasks None by simp
  next
    case (Some r)
    then show ?thesis using assms RunMicrotasks by simp
  qed
next
  case (RecognizeSettled now outcome)
  then show ?thesis using assms resume_pending [OF assms]
    by (auto split: option.splits stage.splits)
next
  case (TranslateSettled now outcome)
  then show ?thesis using assms resume_pending [OF assms]
    by (auto split: option.splits stage.splits)
qed

lemma run_pending:
  "pendingSttRequests (run env callerId events) = int (outstanding (run env callerId events))"
proof (induction events rule: rev_induct)
  case Nil
  show ?case by (simp add: run_def connection_def outstanding_def)
next
  case (snoc e events)
  then show ?case by (simp add: run_snoc step_pending)
qed

text \<open>
  C6: after any sequence of events on a connection (handler calls, microtasks, settled
  calls, in any order), \<^verbatim>\<open>pendingSttRequests\<close> is the number of units of work that were
  chained and have not finished, started or not, so every unit that entered the queue has
  been counted once and taken off once when it finished, and the count is never negative. A unit that ends at its start (rate limit, invalid payload) and a unit
  that ends after a call, with whatever effects (result, silence, processing failure),
  both leave through the \<^verbatim>\<open>finally\<close> callback, which takes one off the count and stops at
  zero.
\<close>

theorem C6_pending_count:
  "pendingSttRequests (run env callerId events) = int (outstanding (run env callerId events))
   \<and> 0 \<le> pendingSttRequests (run env callerId events)
   \<and> 0 \<le> pendingSttRequests (finallyHandler s)
   \<and> (fst (snd (workStart env (now 0) data s)) = Done \<longrightarrow>
        pendingSttRequests (runQueue env now [(i, data)] s) = max 0 (pendingSttRequests s - 1))
   \<and> (waiting s = [] \<longrightarrow>
        pendingSttRequests (resume env now i (effs, Done) s) = max 0 (pendingSttRequests s - 1))"
proof (intro conjI impI)
  show "pendingSttRequests (run env callerId events) = int (outstanding (run env callerId events))"
    by (rule run_pending)
  then show "0 \<le> pendingSttRequests (run env callerId events)" by simp
  show "0 \<le> pendingSttRequests (finallyHandler s)" by (simp add: finallyHandler_def)
next
  assume d: "fst (snd (workStart env (now 0) data s)) = Done"
  obtain effs' pr s' where w: "workStart env (now 0) data s = (effs', pr, s')"
    by (cases "workStart env (now 0) data s")
  with d have "pr = Done" by simp
  with w workStart_fields(1) [OF w]
  show "pendingSttRequests (runQueue env now [(i, data)] s) = max 0 (pendingSttRequests s - 1)"
    by (simp add: finallyHandler_def emit_def)
next
  assume "waiting s = []"
  then show "pendingSttRequests (resume env now i (effs, Done) s)
      = max 0 (pendingSttRequests s - 1)"
    by (simp add: resume_def finallyHandler_def emit_def)
qed

theorem C6_pending_count_witness:
  "map (\<lambda>events. pendingSttRequests (run sampleEnv (js ''alice'') events))
     [[AudioRecording 0 sampleChunk],
      [AudioRecording 0 sampleChunk, RunMicrotasks (allAt 0)],
      [AudioRecording 0 sampleChunk, RunMicrotasks (allAt 0), RecognizeSettled (allAt 5) (Resolved helloResponse)],
      [AudioRecording 0 sampleChunk, RunMicrotasks (allAt 0), RecognizeSettled (allAt 5) (Resolved helloResponse),
       TranslateSettled (allAt 9) (Resolved sampleTranslation)],
      [AudioRecording 0 sampleChunk, RunMicrotasks (allAt 0), RecognizeSettled (allAt 5) Rejected],
      [AudioRecording 0 sampleChunk, RunMicrotasks (allAt 0),
       RecognizeSettled (allAt 5) (Resolved (SttResponse None))],
      [AudioRecording 0 JNull],
      [AudioRecording 0 JNull, RunMicrotasks (allAt 0)],
      [AudioRecording 0 sampleChunk, AudioRecording 0 JNull, AudioRecording 0 sampleChunk,
       RunMicrotasks (allAt 0)],
      [AudioRecording 0 sampleChunk, AudioRecording 0 JNull, AudioRecording 0 sampleChunk,
       RunMicrotasks (allAt 0), RecognizeSettled (allAt 5) Rejected]]
   = [1, 1, 1, 0, 0, 0, 1, 0, 3, 1]
   \<and> fst (snd (workStart sampleEnv 0 JNull
        ((connection (js ''alice''))\<lparr>pendingSttRequests := 1\<rparr>))) = Done
   \<and> pendingSttRequests (runQueue sampleEnv (allAt 0) [(0, JNull)]
        ((connection (js ''alice''))\<lparr>pendingSttRequests := 1\<rparr>)) = 0
   \<and> waiting (run sampleEnv (js ''alice'') [AudioRecording 0 sampleChunk, RunMicrotasks (allAt 0)]) = []
   \<and> pendingSttRequests (resume sampleEnv (allAt 5) 0 ([processingFailed], Done)
        (run sampleEnv (js ''alice'') [AudioRecording 0 sampleChunk, RunMicrotasks (allAt 0)])) = 0"
proof -
  let ?s0 = "(connection (js ''alice''))\<lparr>pendingSttRequests := 1\<rparr>"
  let ?s1 = "run sampleEnv (js ''alice'') [AudioRecording 0 sampleChunk, RunMicrotasks (allAt 0)]"
  have d: "fst (snd (workStart sampleEnv 0 JNull ?s0)) = Done"
    by (simp add: sample_run)
  have w: "waiting ?s1 = []" and p1: "pendingSttRequests ?s1 = 1"
    by (simp_all add: sample_run)
  have p0: "pendingSttRequests ?s0 = 1" by simp
  note t = C6_pending_count [where env = sampleEnv and now = "allAt 0" and data = JNull
      and s = ?s0 and i = 0]
  note u = C6_pending_count [where env = sampleEnv and now = "allAt 5" and s = ?s1 and i = 0
      and effs = "[processingFailed]"]
  have x: "pendingSttRequests (runQueue sampleEnv (allAt 0) [(0, JNull)] ?s0) = 0"
    using t d p0 by (simp add: allAt_def)
  have y: "pendingSttRequests (resume sampleEnv (allAt 5) 0 ([processingFailed], Done) ?s1) = 0"
    using u w p1 by simp
  have o: "map (\<lambda>events. outstanding (run sampleEnv (js ''alice'') events))
     [[AudioRecording 0 sampleChunk],
      [AudioRecording 0 sampleChunk, RunMicrotasks (allAt 0)],
      [AudioRecording 0 sampleChunk, RunMicrotasks (allAt 0), RecognizeSettled (allAt 5) (Resolved helloResponse)],
      [AudioRecording 0 sampleChunk, RunMicrotasks (allAt 0), RecognizeSettled (allAt 5) (Resolved helloResponse),
       TranslateSettled (allAt 9) (Resolved sampleTranslation)],
      [AudioRecording 0 sampleChunk, RunMicrotasks (allAt 0), RecognizeSettled (allAt 5) Rejected],
      [AudioRecording 0 sampleChunk, RunMicrotasks (allAt 0),
       RecognizeSettled (allAt 5) (Resolved (SttResponse None))],
      [AudioRecording 0 JNull],
      [AudioRecording 0 JNull, RunMicrotasks (allAt 0)],
      [AudioRecording 0 sampleChunk, AudioRecording 0 JNull, AudioRecording 0 sampleChunk,
       RunMicrotasks (allAt 0)],
      [AudioRecording 0 sampleChunk, AudioRecording 0 JNull, AudioRecording 0 sampleChunk,
       RunMicrotasks (allAt 0), RecognizeSettled (allAt 5) Rejected]]
   = [1, 1, 1, 0, 0, 0, 1, 0, 3, 1]"
    by (simp add: sample_run outstanding_def)
  have "map (\<lambda>events. pendingSttRequests (run sampleEnv (js ''alice'') events))
     [[AudioRecording 0 sampleChunk],
      [AudioRecording 0 sampleChunk, RunMicrotasks (allAt 0)],
      [AudioRecording 0 sampleChunk, RunMicrotasks (allAt 0), RecognizeSettled (allAt 5) (Resolved helloResponse)],
      [AudioRecording 0 sampleChunk, RunMicrotasks (allAt 0), RecognizeSettled (allAt 5) (Resolved helloResponse),
       TranslateSettled (allAt 9) (Resolved sampleTranslation)],
      [AudioRecording 0 sampleChunk, RunMicrotasks (allAt 0), RecognizeSettled (allAt 5) Rejected],
      [AudioRecording 0 sampleChunk, RunMicrotasks (allAt 0),
       RecognizeSettled (allAt 5) (Resolved (SttResponse None))],
      [AudioRecording 0 JNull],
      [AudioRecording 0 JNull, RunMicrotasks (allAt 0)],
      [AudioRecording 0 sampleChunk, AudioRecording 0 JNull, AudioRecording 0 sampleChunk,
       RunMicrotasks (allAt 0)],
      [AudioRecording 0 sampleChunk, AudioRecording 0 JNull, AudioRecording 0 sampleChunk,
       RunMicrotasks (allAt 0), RecognizeSettled (allAt 5) Rejected]]
   = [1, 1, 1, 0, 0, 0, 1, 0, 3, 1]"
    using o by (simp add: C6_pending_count [THEN conjunct1])
  with d w x y show ?thesis by blast
qed

section \<open>Order of the log\<close>

lemma validateAndRecognize_effects:
  "validateAndRecognize env data = (effs, pr) \<Longrightarrow> unitEffects pr effs"
  by (auto simp: validateAndRecognize_def unitEffects_def backpressure_def split: sum.splits)

lemma workStart_effects:
  assumes "workStart env now data s = (effs, pr, s')"
  shows "unitEffects pr effs"
proof (cases "fst (isRateLimited env now s)")
  case True
  then show ?thesis using assms
    by (auto simp: workStart_def unitEffects_def backpressure_def split: prod.splits)
next
  case False
  then have "validateAndRecognize env data = (effs, pr)" using assms
    by (auto simp: workStart_def split: prod.splits)
  then show ?thesis by (rule validateAndRecognize_effects)
qed

lemma afterRecognize_effects:
  "afterRecognize env sender p outcome = (effs, pr) \<Longrightarrow> unitEffects pr effs"
  by (auto simp: afterRecognize_def unitEffects_def backpressure_def processingFailed_def
      resultPayload_def Let_def split: settled.splits option.splits if_splits)

lemma afterTranslate_effects:
  "afterTranslate sender p transcription outcome = (effs, pr) \<Longrightarrow> unitEffects pr effs"
  by (auto simp: afterTranslate_def unitEffects_def backpressure_def processingFailed_def
      resultPayload_def split: settled.splits)

lemma queuedLog_emit:
  "backpressure \<notin> set effs \<Longrightarrow>
   queuedLog (emit i effs s) = queuedLog s @ replicate (length effs) i"
  by (induction effs rule: rev_induct)
    (auto simp: queuedLog_def emit_def replicate_append_same)

lemma outcomeLog_emit:
  "backpressure \<notin> set effs \<Longrightarrow>
   outcomeLog (emit i effs s) = outcomeLog s @ replicate (length (filter isOutcome effs)) i"
  by (induction effs rule: rev_induct)
    (auto simp: outcomeLog_def emit_def replicate_append_same)

lemma outcomeLog_subset: "set (outcomeLog s) \<subseteq> set (queuedLog s)"
  by (auto simp: outcomeLog_def queuedLog_def)

lemma log_cong:
  "emitted s' = emitted s \<Longrightarrow> queuedLog s' = queuedLog s \<and> outcomeLog s' = outcomeLog s"
  by (simp add: queuedLog_def outcomeLog_def)

lemma sorted_wrt_less_replicate: "k \<le> 1 \<Longrightarrow> sorted_wrt (<) (replicate k (i::nat))"
  by (cases k) auto

lemma unit_done_ready:
  assumes "atUnit i queue s" and "unitEffects Done effs"
  shows "readyToRun queue (finallyHandler (emit i effs s))"
proof -
  let ?s = "finallyHandler (emit i effs s)"
  have bp: "backpressure \<notin> set effs" and one: "length (filter isOutcome effs) \<le> 1"
    using assms(2) by (simp_all add: unitEffects_def)
  have q: "queuedLog ?s = queuedLog s @ replicate (length effs) i"
    using queuedLog_emit [OF bp, of i s] log_cong [of ?s "emit i effs s"]
    by (simp add: finallyHandler_def)
  have o: "outcomeLog ?s = outcomeLog s @ replicate (length (filter isOutcome effs)) i"
    using outcomeLog_emit [OF bp, of i s] log_cong [of ?s "emit i effs s"]
    by (simp add: finallyHandler_def)
  have n: "submitted ?s = submitted s" by (simp add: finallyHandler_def emit_def)
  have "sorted (queuedLog ?s)"
    using assms(1) by (auto simp: q atUnit_def logOrdered_def sorted_append)
  moreover have "sorted_wrt (<) (outcomeLog ?s)"
    using assms(1) one
    by (auto simp: o atUnit_def logOrdered_def sorted_wrt_append sorted_wrt_less_replicate)
  moreover have "\<forall>l \<in> set (queuedLog ?s). l < submitted ?s"
    using assms(1) by (auto simp: q n atUnit_def logOrdered_def)
  moreover have "\<forall>j \<in> set (map fst queue). j < submitted ?s \<and> (\<forall>l \<in> set (queuedLog ?s). l < j)"
    using assms(1) by (fastforce simp: q n atUnit_def)
  ultimately show ?thesis
    using assms(1) by (simp add: readyToRun_def logOrdered_def atUnit_def)
qed

lemma unit_await:
  assumes "atUnit i queue s" and "unitEffects (Await st) effs"
  shows "atUnit i queue (emit i effs s)"
proof -
  let ?s = "emit i effs s"
  have bp: "backpressure \<notin> set effs" and none: "filter isOutcome effs = []"
    using assms(2) by (simp_all add: unitEffects_def)
  have q: "queuedLog ?s = queuedLog s @ replicate (length effs) i"
    using queuedLog_emit [OF bp, of i s] by simp
  have o: "outcomeLog ?s = outcomeLog s"
    using outcomeLog_emit [OF bp, of i s] none by simp
  have n: "submitted ?s = submitted s" by (simp add: emit_def)
  have "sorted (queuedLog ?s)"
    using assms(1) by (auto simp: q atUnit_def logOrdered_def sorted_append)
  moreover have "\<forall>l \<in> set (queuedLog ?s). l < submitted ?s \<and> l \<le> i"
    using assms(1) by (auto simp: q n atUnit_def logOrdered_def)
  ultimately show ?thesis
    using assms(1) by (simp add: atUnit_def logOrdered_def o n)
qed

lemma ready_head:
  assumes "readyToRun ((i, data) # queue) s"
    and "emitted s' = emitted s" and "submitted s' = submitted s"
  shows "atUnit i queue s'"
proof -
  have "queuedLog s' = queuedLog s" "outcomeLog s' = outcomeLog s"
    using log_cong [OF assms(2)] by simp_all
  moreover have "\<forall>l \<in> set (outcomeLog s). l < i"
    using assms(1) outcomeLog_subset [of s] by (auto simp: readyToRun_def)
  ultimately show ?thesis
    using assms by (auto simp: readyToRun_def atUnit_def logOrdered_def)
qed

lemma atUnit_chain:
  assumes "atUnit i queue s"
  shows "chainOrdered (s\<lparr>running := Some (i, st), waiting := queue\<rparr>)"
proof -
  let ?s = "s\<lparr>running := Some (i, st), waiting := queue\<rparr>"
  have "queuedLog ?s = queuedLog s" "outcomeLog ?s = outcomeLog s"
    using log_cong [of ?s s] by simp_all
  then show ?thesis
    using assms by (simp add: chainOrdered_def atUnit_def logOrdered_def)
qed

lemma ready_idle:
  assumes "readyToRun [] s"
  shows "chainOrdered (s\<lparr>running := None, waiting := []\<rparr>)"
proof -
  let ?s = "s\<lparr>running := None, waiting := []\<rparr>"
  have "queuedLog ?s = queuedLog s" "outcomeLog ?s = outcomeLog s"
    using log_cong [of ?s s] by simp_all
  then show ?thesis
    using assms by (simp add: chainOrdered_def readyToRun_def logOrdered_def)
qed

lemma runQueue_ordered:
  "readyToRun queue s \<Longrightarrow> chainOrdered (runQueue env now queue s)"
proof (induction queue arbitrary: s now)
  case Nil
  then show ?case using ready_idle by simp
next
  case (Cons a queue)
  obtain i data where a: "a = (i, data)" by (cases a)
  obtain effs pr s' where w: "workStart env (now 0) data s = (effs, pr, s')"
    by (cases "workStart env (now 0) data s")
  note f = workStart_fields [OF w]
  have u: "atUnit i queue s'"
    using ready_head [of i data queue s s'] Cons.prems a f by simp
  have e: "unitEffects pr effs" using w by (rule workStart_effects)
  show ?case
  proof (cases pr)
    case Done
    with u e have "readyToRun queue (finallyHandler (emit i effs s'))"
      using unit_done_ready by blast
    from Cons.IH [OF this] show ?thesis using a w Done by simp
  next
    case (Await st)
    with u e have "atUnit i queue (emit i effs s')" using unit_await by blast
    from atUnit_chain [OF this, of st] show ?thesis using a w Await by simp
  qed
qed

lemma resume_ordered:
  assumes "chainOrdered s" and "running s = Some (i, st)" and "unitEffects pr effs"
  shows "chainOrdered (resume env now i (effs, pr) s)"
proof -
  have u: "atUnit i (waiting s) s" using assms(1,2) by (simp add: chainOrdered_def)
  show ?thesis
  proof (cases pr)
    case Done
    with u assms(3) have "readyToRun (waiting s) (finallyHandler (emit i effs s))"
      using unit_done_ready by blast
    from runQueue_ordered [OF this] show ?thesis using Done by (simp add: resume_def)
  next
    case (Await st')
    with u assms(3) have a: "atUnit i (waiting s) (emit i effs s)" using unit_await by blast
    have "waiting (emit i effs s) = waiting s" by (simp add: emit_def)
    then have "(emit i effs s)\<lparr>running := Some (i, st'), waiting := waiting s\<rparr>
        = (emit i effs s)\<lparr>running := Some (i, st')\<rparr>"
      by (simp add: session.equality)
    with atUnit_chain [OF a, of st'] show ?thesis using Await by (simp add: resume_def)
  qed
qed

lemma audioRecording_ordered:
  assumes "chainOrdered s"
  shows "chainOrdered (audioRecording env now data s)"
proof (cases "MAX_STT_PENDING_REQUESTS env \<le> pendingSttRequests s")
  case True
  let ?s = "emit (submitted s) [backpressure] (s\<lparr>submitted := Suc (submitted s)\<rparr>)"
  have "queuedLog ?s = queuedLog s" "outcomeLog ?s = outcomeLog s"
    by (simp_all add: queuedLog_def outcomeLog_def emit_def)
  moreover have "running ?s = running s" "waiting ?s = waiting s"
    "submitted ?s = Suc (submitted s)"
    by (simp_all add: emit_def)
  ultimately have "chainOrdered ?s"
    using assms
    by (auto simp: chainOrdered_def readyToRun_def logOrdered_def atUnit_def less_Suc_eq
        split: option.splits)
  then show ?thesis using True by (simp add: audioRecording_def Let_def)
next
  case False
  let ?n = "submitted s"
  let ?s = "s\<lparr>submitted := Suc ?n, pendingSttRequests := pendingSttRequests s + 1,
    waiting := waiting s @ [(?n, data)]\<rparr>"
  have "queuedLog ?s = queuedLog s" "outcomeLog ?s = outcomeLog s"
    using log_cong [of ?s s] by simp_all
  then have "chainOrdered ?s"
    using assms
    by (auto simp: chainOrdered_def readyToRun_def logOrdered_def atUnit_def sorted_wrt_append
        less_Suc_eq split: option.splits)
  then show ?thesis using False by (simp add: audioRecording_def Let_def)
qed

lemma step_ordered:
  assumes "chainOrdered s"
  shows "chainOrdered (step env s e)"
proof (cases e)
  case (AudioRecording now data)
  then show ?thesis using audioRecording_ordered [OF assms] by simp
next
  case (RunMicrotasks now)
  show ?thesis
  proof (cases "running s")
    case None
    then have "readyToRun (waiting s) s" using assms by (simp add: chainOrdered_def)
    from runQueue_ordered [OF this] show ?thesis using RunMicrotasks None by simp
  next
    case (Some r)
    then show ?thesis using assms RunMicrotasks by simp
  qed
next
  case (RecognizeSettled now outcome)
  show ?thesis
  proof (cases "running s")
    case None
    then show ?thesis using assms RecognizeSettled by simp
  next
    case (Some r)
    obtain i st where r: "r = (i, st)" by (cases r)
    show ?thesis
    proof (cases st)
      case (AwaitRecognize p)
      obtain effs pr where a: "afterRecognize env (user s) p outcome = (effs, pr)"
        by (cases "afterRecognize env (user s) p outcome")
      from resume_ordered [OF assms _ afterRecognize_effects [OF a], of i st env now]
      show ?thesis using Some r AwaitRecognize RecognizeSettled a by simp
    next
      case (AwaitTranslate p t)
      then show ?thesis using assms Some r RecognizeSettled by simp
    qed
  qed
next
  case (TranslateSettled now outcome)
  show ?thesis
  proof (cases "running s")
    case None
    then show ?thesis using assms TranslateSettled by simp
  next
    case (Some r)
    obtain i st where r: "r = (i, st)" by (cases r)
    show ?thesis
    proof (cases st)
      case (AwaitRecognize p)
      then show ?thesis using assms Some r TranslateSettled by simp
    next
      case (AwaitTranslate p t)
      obtain effs pr where a: "afterTranslate (user s) p t outcome = (effs, pr)"
        by (cases "afterTranslate (user s) p t outcome")
      from resume_ordered [OF assms _ afterTranslate_effects [OF a], of i st env now]
      show ?thesis using Some r AwaitTranslate TranslateSettled a by simp
    qed
  qed
qed

lemma run_ordered: "chainOrdered (run env callerId events)"
proof (induction events rule: rev_induct)
  case Nil
  show ?case
    by (simp add: run_def connection_def chainOrdered_def readyToRun_def logOrdered_def
        queuedLog_def outcomeLog_def)
next
  case (snoc e events)
  then show ?case by (simp add: run_snoc step_ordered)
qed

text \<open>
  C1: in the log of any sequence of events on a connection (handler calls, microtasks,
  settled calls, in any order), the effects of the units of work (calls, results, errors;
  the immediate backpressure errors aside) appear in blocks by event number, in
  increasing order: a unit emits nothing before every unit chained earlier has emitted
  all it ever emits, whenever the calls settle. The outcomes (results and errors) have
  strictly increasing event numbers: submission order, and at most one outcome for each
  unit.
\<close>

theorem C1_serialized:
  "sorted (queuedLog (run env callerId events))
   \<and> sorted_wrt (<) (outcomeLog (run env callerId events))"
  using run_ordered [of env callerId events]
  by (auto simp: chainOrdered_def readyToRun_def atUnit_def logOrdered_def
      split: option.splits)

theorem C1_serialized_witness:
  "emitted (run sampleEnv (js ''alice'')
     [AudioRecording 0 sampleChunk, AudioRecording 0 JNull, AudioRecording 0 sampleChunkToEnglish,
      RunMicrotasks (allAt 0),
      RecognizeSettled (allAt 50) (Resolved helloResponse),
      TranslateSettled (allAt 60) (Resolved sampleTranslation),
      RecognizeSettled (allAt 70) Rejected])
   = [(0, CallRecognize
           \<lparr>config_encoding = js ''LINEAR16'', config_sampleRateHertz = Fin 16000,
            config_languageCode = js ''en-US'', config_enableAutomaticPunctuation = True,
            audio_content = js ''aGVsbG8=''\<rparr>),
      (0, CallTranslateText
           \<lparr>parent = js ''projects/demo-project/locations/global'', contents = [js ''hello''],
            mimeType = js ''text/plain'', request_sourceLanguageCode = js ''en'',
            request_targetLanguageCode = js ''my''\<rparr>),
      (0, EmitSttResult (js ''bob'')
           \<lparr>result_text = js ''hello'', result_translated = js ''mingalaba'',
            result_from = js ''alice'', result_to = js ''bob'', result_sequenceId = JNull\<rparr>),
      (1, EmitSttError ''STT_INVALID_PAYLOAD'' ''Invalid payload''),
      (2, CallRecognize
           \<lparr>config_encoding = js ''LINEAR16'', config_sampleRateHertz = Fin 16000,
            config_languageCode = js ''en-US'', config_enableAutomaticPunctuation = True,
            audio_content = js ''aGVsbG8=''\<rparr>),
      (2, EmitSttError ''STT_PROCESSING_FAILED'' ''Unable to process this audio chunk'')]
   \<and> map (\<lambda>(i, e). (i, case e of EmitSttError code message \<Rightarrow> code | _ \<Rightarrow> []))
       (emitted (run sampleEnv (js ''alice'')
          (replicate 9 (AudioRecording 0 JNull) @ [RunMicrotasks (allAt 0)])))
     = [(8, ''STT_BACKPRESSURE''), (0, ''STT_INVALID_PAYLOAD''), (1, ''STT_INVALID_PAYLOAD''),
        (2, ''STT_INVALID_PAYLOAD''), (3, ''STT_INVALID_PAYLOAD''), (4, ''STT_INVALID_PAYLOAD''),
        (5, ''STT_INVALID_PAYLOAD''), (6, ''STT_INVALID_PAYLOAD''), (7, ''STT_INVALID_PAYLOAD'')]
   \<and> sorted [0, 0, 0, 1, 2, 2 :: nat] \<and> sorted_wrt (<) [0, 1, 2 :: nat]"
proof -
  let ?events = "[AudioRecording 0 sampleChunk, AudioRecording 0 JNull,
      AudioRecording 0 sampleChunkToEnglish, RunMicrotasks (allAt 0),
      RecognizeSettled (allAt 50) (Resolved helloResponse),
      TranslateSettled (allAt 60) (Resolved sampleTranslation),
      RecognizeSettled (allAt 70) Rejected]"
  let ?s = "run sampleEnv (js ''alice'') ?events"
  have e: "emitted ?s
   = [(0, CallRecognize
           \<lparr>config_encoding = js ''LINEAR16'', config_sampleRateHertz = Fin 16000,
            config_languageCode = js ''en-US'', config_enableAutomaticPunctuation = True,
            audio_content = js ''aGVsbG8=''\<rparr>),
      (0, CallTranslateText
           \<lparr>parent = js ''projects/demo-project/locations/global'', contents = [js ''hello''],
            mimeType = js ''text/plain'', request_sourceLanguageCode = js ''en'',
            request_targetLanguageCode = js ''my''\<rparr>),
      (0, EmitSttResult (js ''bob'')
           \<lparr>result_text = js ''hello'', result_translated = js ''mingalaba'',
            result_from = js ''alice'', result_to = js ''bob'', result_sequenceId = JNull\<rparr>),
      (1, EmitSttError ''STT_INVALID_PAYLOAD'' ''Invalid payload''),
      (2, CallRecognize
           \<lparr>config_encoding = js ''LINEAR16'', config_sampleRateHertz = Fin 16000,
            config_languageCode = js ''en-US'', config_enableAutomaticPunctuation = True,
            audio_content = js ''aGVsbG8=''\<rparr>),
      (2, EmitSttError ''STT_PROCESSING_FAILED'' ''Unable to process this audio chunk'')]"
    by (simp add: sample_run)
  have n: "map (\<lambda>(i, e). (i, case e of EmitSttError code message \<Rightarrow> code | _ \<Rightarrow> []))
       (emitted (run sampleEnv (js ''alice'')
          (replicate 9 (AudioRecording 0 JNull) @ [RunMicrotasks (allAt 0)])))
     = [(8, ''STT_BACKPRESSURE''), (0, ''STT_INVALID_PAYLOAD''), (1, ''STT_INVALID_PAYLOAD''),
        (2, ''STT_INVALID_PAYLOAD''), (3, ''STT_INVALID_PAYLOAD''), (4, ''STT_INVALID_PAYLOAD''),
        (5, ''STT_INVALID_PAYLOAD''), (6, ''STT_INVALID_PAYLOAD''), (7, ''STT_INVALID_PAYLOAD'')]"
    by (simp add: sample_run eval_nat_numeral)
  have q: "queuedLog ?s = [0, 0, 0, 1, 2, 2]" and o: "outcomeLog ?s = [0, 1, 2]"
    unfolding queuedLog_def outcomeLog_def e by (simp_all add: backpressure_def)
  from C1_serialized [of sampleEnv "js ''alice''" ?events]
  have "sorted [0, 0, 0, 1, 2, 2 :: nat] \<and> sorted_wrt (<) [0, 1, 2 :: nat]"
    unfolding q o .
  with e n show ?thesis by blast
qed

end
